theory Spec2Isabelle
  imports Complex_Main "HOL-Library.Word" "HOL-Library.Sublist"
begin

unbundle bit_operations_syntax

section \<open>Scalar types of the driver\<close>

text \<open>
  A C++ \<open>float\<close> is kept as its IEEE-754 binary32 bit pattern, so that "copied as it is"
  means equality of all 32 bits. Only the operations \<open>extractData\<close> performs on floats are
  defined: the two constants it writes, the comparison \<open>a < b\<close>, and the conversion of an
  unsigned 16-bit integer (always exact, a binary32 significand has 24 bits).
\<close>

type_synonym float32 = "32 word"
type_synonym float64 = "64 word"

definition quiet_NaN :: float32 where
  "quiet_NaN = 0x7FC00000"

definition float_zero :: float32 where
  "float_zero = 0x00000000"

definition float_isnan :: "float32 \<Rightarrow> bool" where
  "float_isnan w = (0x7F800000 < (w AND 0x7FFFFFFF))"

text \<open>Sign and magnitude read as an integer: monotone in the value, both zeros at 0.\<close>

definition float_key :: "float32 \<Rightarrow> int" where
  "float_key w = (if bit w 31 then - uint (w AND 0x7FFFFFFF) else uint (w AND 0x7FFFFFFF))"

definition float_less :: "float32 \<Rightarrow> float32 \<Rightarrow> bool" where
  "float_less a b = (\<not> float_isnan a \<and> \<not> float_isnan b \<and> float_key a < float_key b)"

definition float_ge :: "float32 \<Rightarrow> float32 \<Rightarrow> bool" where
  "float_ge a b = (\<not> float_isnan a \<and> \<not> float_isnan b \<and> float_key b \<le> float_key a)"

fun log2_floor :: "nat \<Rightarrow> nat" where
  "log2_floor n = (if n < 2 then 0 else Suc (log2_floor (n div 2)))"

declare log2_floor.simps [simp del]

definition float_of_uint16 :: "16 word \<Rightarrow> float32" where
  "float_of_uint16 g =
     (if g = 0 then float_zero
      else let e = log2_floor (unat g)
           in word_of_nat ((127 + e) * 2 ^ 23 + (unat g * 2 ^ (23 - e) - 2 ^ 23)))"

text \<open>
  The value of a pattern that is not a NaN, used to state that the conversion is exact
  and that the comparison is the one of the values; 2^128 stands for infinity.
\<close>

definition float_magnitude :: "nat \<Rightarrow> real" where
  "float_magnitude n =
     (let m = n mod 2 ^ 23; e = n div 2 ^ 23
      in if e = 0 then of_nat m / 2 ^ 149
         else if e < 150 then of_nat (2 ^ 23 + m) / 2 ^ (150 - e)
         else of_nat (2 ^ 23 + m) * 2 ^ (e - 150))"

definition float_value :: "float32 \<Rightarrow> real" where
  "float_value w =
     (if bit w 31 then - float_magnitude (unat (w AND 0x7FFFFFFF))
      else float_magnitude (unat (w AND 0x7FFFFFFF)))"

section \<open>Messages and sensor data\<close>

text \<open>
  Modelled from the spec: \<open>royale::DepthPoint\<close> and \<open>royale::DepthData\<close> are declared in
  royale.hpp, which is not among the sources; the fields are those of the spec's RawFrame
  and those \<open>onNewData\<close> copies. The time stamp is a count of microseconds.
\<close>

record DepthPoint =
  pt_x :: float32
  pt_y :: float32
  pt_z :: float32
  pt_noise :: float32
  pt_grayValue :: "16 word"
  pt_depthConfidence :: bool

record DepthData =
  dd_version :: int
  dd_timeStamp :: int
  dd_width :: "16 word"
  dd_height :: "16 word"
  dd_exposureTimes :: "32 word list"
  dd_points :: "DepthPoint list"

text \<open>
  The ROS messages, with the fields the driver assigns; field names carry the record's
  prefix, since the messages share most of them. \<open>hdr_stamp\<close> is the nanosecond count
  handed to \<open>fromNSec\<close>. The \<open>data\<close> byte vector of an image is kept as the sequence of
  elements the driver's typed pointers address (\<open>uint16_t\<close> or \<open>float\<close>); the cloud's is the
  flat sequence of floats, five for each point.
\<close>

record Header =
  hdr_seq :: "32 word"
  hdr_stamp :: int
  hdr_frame_id :: string

record 'a Image =
  img_header :: Header
  img_height :: "32 word"
  img_width :: "32 word"
  img_encoding :: string
  img_is_bigendian :: bool
  img_step :: "32 word"
  img_data :: "'a list"

record PointField =
  pf_name :: string
  pf_offset :: "32 word"
  pf_datatype :: "8 word"
  pf_count :: "32 word"

record PointCloud2 =
  pc_header :: Header
  pc_height :: "32 word"
  pc_width :: "32 word"
  pc_fields :: "PointField list"
  pc_is_bigendian :: bool
  pc_point_step :: "32 word"
  pc_row_step :: "32 word"
  pc_data :: "float32 list"
  pc_is_dense :: bool

record CameraInfo =
  ci_header :: Header
  ci_height :: "32 word"
  ci_width :: "32 word"
  ci_distortion_model :: string
  ci_D :: "float64 list"
  ci_K :: "float64 list"
  ci_R :: "float64 list"
  ci_P :: "float64 list"

definition empty_Header :: Header where
  "empty_Header = \<lparr>hdr_seq = 0, hdr_stamp = 0, hdr_frame_id = []\<rparr>"

definition empty_Image :: "'a Image" where
  "empty_Image = \<lparr>img_header = empty_Header, img_height = 0, img_width = 0, img_encoding = [],
     img_is_bigendian = False, img_step = 0, img_data = []\<rparr>"

definition empty_PointField :: PointField where
  "empty_PointField = \<lparr>pf_name = [], pf_offset = 0, pf_datatype = 0, pf_count = 0\<rparr>"

definition empty_PointCloud2 :: PointCloud2 where
  "empty_PointCloud2 = \<lparr>pc_header = empty_Header, pc_height = 0, pc_width = 0, pc_fields = [],
     pc_is_bigendian = False, pc_point_step = 0, pc_row_step = 0, pc_data = [], pc_is_dense = False\<rparr>"

definition empty_CameraInfo :: CameraInfo where
  "empty_CameraInfo = \<lparr>ci_header = empty_Header, ci_height = 0, ci_width = 0, ci_distortion_model = [],
     ci_D = [], ci_K = replicate 9 0, ci_R = replicate 9 0, ci_P = replicate 12 0\<rparr>"

text \<open>The five message objects the processing thread owns and hands to \<open>extractData\<close>.\<close>

record Messages =
  msgCameraInfo :: CameraInfo
  msgCloud :: PointCloud2
  msgMono16 :: "16 word Image"
  msgDepth :: "float32 Image"
  msgNoise :: "float32 Image"

text \<open>\<open>std::vector::resize\<close>: keeps a prefix, pads with value-initialised elements.\<close>

definition resize_vec :: "nat \<Rightarrow> 'a \<Rightarrow> 'a list \<Rightarrow> 'a list" where
  "resize_vec n d xs = take n xs @ replicate (n - length xs) d"

section \<open>Topics\<close>

definition CAMERA_INFO :: nat where "CAMERA_INFO = 0"
definition MONO_16 :: nat where "MONO_16 = 1"
definition DEPTH :: nat where "DEPTH = 2"
definition NOISE :: nat where "NOISE = 3"
definition CLOUD :: nat where "CLOUD = 4"
definition COUNT :: nat where "COUNT = 5"

definition PF_TF_OPT_FRAME :: string where
  "PF_TF_OPT_FRAME = ''_optical_frame''"

definition MONO16_encoding :: string where
  "MONO16_encoding = ''mono16''"

definition TYPE_32FC1 :: string where
  "TYPE_32FC1 = ''32FC1''"

definition FLOAT32 :: "8 word" where
  "FLOAT32 = 7"

section \<open>extractData\<close>

text \<open>
  The buffers the per-point loop writes through its eight pointers. At iteration \<open>i\<close> the
  cloud pointers stand at \<open>5 * i\<close> to \<open>5 * i + 4\<close>, the image pointers at \<open>i\<close>.
\<close>

record PointBuffers =
  bufCloud :: "float32 list"
  bufDepth :: "float32 list"
  bufNoise :: "float32 list"
  bufMono16 :: "16 word list"

definition write_point :: "float32 \<Rightarrow> DepthPoint \<Rightarrow> nat \<Rightarrow> PointBuffers \<Rightarrow> PointBuffers" where
  "write_point maxN p i b =
     (let b1 =
        (if pt_depthConfidence p \<and> float_less (pt_noise p) maxN
         then b\<lparr>bufCloud := (bufCloud b)[5 * i := pt_x p, 5 * i + 1 := pt_y p, 5 * i + 2 := pt_z p,
                                          5 * i + 3 := pt_noise p],
                bufDepth := (bufDepth b)[i := pt_z p],
                bufNoise := (bufNoise b)[i := pt_noise p]\<rparr>
         else b\<lparr>bufCloud := (bufCloud b)[5 * i := quiet_NaN, 5 * i + 1 := quiet_NaN,
                                          5 * i + 2 := quiet_NaN, 5 * i + 3 := float_zero],
                bufDepth := (bufDepth b)[i := quiet_NaN],
                bufNoise := (bufNoise b)[i := float_zero]\<rparr>)
      in b1\<lparr>bufCloud := (bufCloud b1)[5 * i + 4 := float_of_uint16 (pt_grayValue p)],
             bufMono16 := (bufMono16 b1)[i := pt_grayValue p]\<rparr>)"

function extract_loop :: "float32 \<Rightarrow> DepthPoint list \<Rightarrow> nat \<Rightarrow> PointBuffers \<Rightarrow> PointBuffers" where
  "extract_loop maxN pts i b =
     (if i < length pts then extract_loop maxN pts (Suc i) (write_point maxN (pts ! i) i b)
      else b)"
  by pat_completeness auto
termination
  by (relation "measure (\<lambda>(maxN, pts, i, b). length pts - i)") auto

declare extract_loop.simps [simp del]

text \<open>
  The part of the driver object \<open>extractData\<close> reads: the subscription flags, the cached
  camera info, the TF base name and the noise threshold.
\<close>

record ExtractEnv =
  status :: "bool list"
  cameraInfo :: CameraInfo
  baseNameTF :: string
  maxNoise :: float32

definition make_header :: "'e ExtractEnv_scheme \<Rightarrow> DepthData \<Rightarrow> Header" where
  "make_header s d =
     \<lparr>hdr_seq = 0, hdr_stamp = dd_timeStamp d * 1000, hdr_frame_id = baseNameTF s @ PF_TF_OPT_FRAME\<rparr>"

definition cloud_fields :: "PointField list \<Rightarrow> PointField list" where
  "cloud_fields fs =
     (let f0 = resize_vec 5 empty_PointField fs;
          f1 = f0[0 := \<lparr>pf_name = ''x'', pf_offset = 0, pf_datatype = FLOAT32, pf_count = 1\<rparr>];
          f2 = f1[1 := \<lparr>pf_name = ''y'', pf_offset = pf_offset (f1 ! 0) + 4, pf_datatype = FLOAT32, pf_count = 1\<rparr>];
          f3 = f2[2 := \<lparr>pf_name = ''z'', pf_offset = pf_offset (f2 ! 1) + 4, pf_datatype = FLOAT32, pf_count = 1\<rparr>];
          f4 = f3[3 := \<lparr>pf_name = ''noise'', pf_offset = pf_offset (f3 ! 2) + 4, pf_datatype = FLOAT32,
                        pf_count = 1\<rparr>]
      in f4[4 := \<lparr>pf_name = ''intensity'', pf_offset = pf_offset (f4 ! 3) + 4, pf_datatype = FLOAT32,
                  pf_count = 1\<rparr>])"

text \<open>
  The body of \<open>extractData\<close> in two parts: the point-level step, which is everything after
  the early \<open>return\<close> (it sets up the four point-level messages and runs the per-point
  loop), and the function itself, which fills the camera info, tests the subscriptions
  and then runs that step.
\<close>

definition extractData_points ::
  "'e ExtractEnv_scheme \<Rightarrow> Header \<Rightarrow> DepthData \<Rightarrow> Messages \<Rightarrow> Messages" where
  "extractData_points s hdr d m1 =
     (let n = length (dd_points d);
          b = extract_loop (maxNoise s) (dd_points d) 0
                \<lparr>bufCloud = resize_vec (5 * n) 0 (pc_data (msgCloud m1)),
                 bufDepth = resize_vec n 0 (img_data (msgDepth m1)),
                 bufNoise = resize_vec n 0 (img_data (msgNoise m1)),
                 bufMono16 = resize_vec n 0 (img_data (msgMono16 m1))\<rparr>
      in m1\<lparr>msgMono16 := (msgMono16 m1)\<lparr>img_header := hdr,
                img_height := ucast (dd_height d),
                img_width := ucast (dd_width d),
                img_is_bigendian := False,
                img_encoding := MONO16_encoding,
                img_step := 2 * ucast (dd_width d),
                img_data := bufMono16 b\<rparr>,
            msgDepth := (msgDepth m1)\<lparr>img_header := hdr,
                img_height := ucast (dd_height d),
                img_width := ucast (dd_width d),
                img_is_bigendian := False,
                img_encoding := TYPE_32FC1,
                img_step := 4 * ucast (dd_width d),
                img_data := bufDepth b\<rparr>,
            msgNoise := (msgNoise m1)\<lparr>img_header := hdr,
                img_height := ucast (dd_height d),
                img_width := ucast (dd_width d),
                img_is_bigendian := False,
                img_encoding := TYPE_32FC1,
                img_step := 4 * ucast (dd_width d),
                img_data := bufNoise b\<rparr>,
            msgCloud := (msgCloud m1)\<lparr>pc_header := hdr,
                pc_height := ucast (dd_height d),
                pc_width := ucast (dd_width d),
                pc_is_bigendian := False,
                pc_is_dense := False,
                pc_point_step := 20,
                pc_row_step := 20 * ucast (dd_width d),
                pc_fields := cloud_fields (pc_fields (msgCloud m1)),
                pc_data := bufCloud b\<rparr>\<rparr>)"

definition extractData :: "'e ExtractEnv_scheme \<Rightarrow> DepthData \<Rightarrow> Messages \<Rightarrow> Messages" where
  "extractData s d m =
     (let hdr = make_header s d;
          m1 = (if status s ! CAMERA_INFO
                then m\<lparr>msgCameraInfo := (cameraInfo s)\<lparr>ci_header := hdr,
                          ci_height := ucast (dd_height d),
                          ci_width := ucast (dd_width d)\<rparr>\<rparr>
                else m)
      in if \<not> (status s ! MONO_16 \<or> status s ! DEPTH \<or> status s ! NOISE \<or> status s ! CLOUD)
         then m1
         else extractData_points s hdr d m1)"

section \<open>The camera device and the driver object\<close>

text \<open>
  The camera (\<open>royale::ICameraDevice\<close>) belongs to the Royale SDK, an external library.
  It is a parameter of the model: an abstract state \<open>'d\<close> together with the operations the
  driver calls on it, each returning its result and the device's next state. The driver
  only tests a returned status against \<open>SUCCESS\<close>, so every other status is one constructor
  carrying its code.
\<close>

datatype CameraStatus = SUCCESS | FAILED nat

datatype ExposureMode = MANUAL | AUTOMATIC

record 'd Royale =
  dev_isCapturing :: "'d \<Rightarrow> bool"
  dev_startCapture :: "'d \<Rightarrow> CameraStatus \<times> 'd"
  dev_stopCapture :: "'d \<Rightarrow> CameraStatus \<times> 'd"
  dev_getExposureMode :: "'d \<Rightarrow> ExposureMode"
  dev_setExposureMode :: "ExposureMode \<Rightarrow> 'd \<Rightarrow> CameraStatus \<times> 'd"
  dev_getExposureLimits :: "'d \<Rightarrow> 32 word \<times> 32 word"
  dev_setExposureTime :: "32 word \<Rightarrow> 'd \<Rightarrow> CameraStatus \<times> 'd"
  dev_setUseCase :: "string \<Rightarrow> 'd \<Rightarrow> CameraStatus \<times> 'd"
  dev_getCurrentUseCase :: "'d \<Rightarrow> string"

text \<open>The requests sent to the device, in order (a record of what was asked of it).\<close>

datatype DeviceCall =
  StartCapture | StopCapture | SetUseCase string | SetExposureMode ExposureMode
  | SetExposureTime "32 word"

text \<open>
  \<open>pico_flexx_driverConfig\<close> is generated from the dynamic-reconfigure description, which
  is not among the sources; its fields are those the driver reads and writes. The two
  \<open>int\<close> fields are kept as 32-bit patterns (\<open>setExposure\<close> takes the time as \<open>uint32_t\<close>).
\<close>

record driverConfig =
  use_case :: string
  exposure_mode :: "32 word"
  exposure_time :: "32 word"
  max_noise :: float64
  range_factor :: float64

text \<open>
  The members of class \<open>PicoFlexx\<close>. The counters are C++ \<open>int\<close>s; they are kept as
  mathematical integers, since a signed overflow is undefined in C++ and would need more
  than 2^31 iterations of 300 ms each. \<open>shutdown_requested\<close> records a call of
  \<open>ros::shutdown()\<close>, \<open>serverMin\<close> and \<open>serverMax\<close> what was last handed to
  \<open>server.setConfigMin\<close> and \<open>server.setConfigMax\<close>.
\<close>

record 'd PicoFlexx = ExtractEnv +
  config :: driverConfig
  configMin :: driverConfig
  configMax :: driverConfig
  cameraDevice :: 'd
  calls :: "DeviceCall list"
  data :: "DepthData option"
  running :: bool
  newData :: bool
  frame :: "64 word"
  framesPerTiming :: "64 word"
  processTime :: "64 word"
  delayReceived :: "64 word"
  startTime :: int
  rangeFactor :: float64
  iters_since_start :: int
  iters_since_data :: int
  shutdown_requested :: bool
  serverMin :: driverConfig
  serverMax :: driverConfig

definition startup_ignore_iters :: int where
  "startup_ignore_iters = 15"

definition dropout_allow_iters :: int where
  "dropout_allow_iters = 5"

section \<open>onNewData\<close>

text \<open>\<open>now\<close> is the clock reading in nanoseconds taken on entry.\<close>

definition onNewData :: "int \<Rightarrow> DepthData \<Rightarrow> 'd PicoFlexx \<Rightarrow> 'd PicoFlexx" where
  "onNewData now d s =
     (let s1 = s\<lparr>delayReceived := delayReceived s + word_of_int (now - dd_timeStamp d * 1000)\<rparr>
      in s1\<lparr>data := Some \<lparr>dd_version = dd_version d, dd_timeStamp = dd_timeStamp d,
                            dd_width = dd_width d, dd_height = dd_height d,
                            dd_exposureTimes = dd_exposureTimes d, dd_points = dd_points d\<rparr>,
             newData := True\<rparr>)"

section \<open>callbackTopicStatus\<close>

text \<open>\<open>subs i\<close> is what \<open>publisher[i].getNumSubscribers()\<close> returns.\<close>

function update_status :: "(nat \<Rightarrow> nat) \<Rightarrow> nat \<Rightarrow> bool list \<Rightarrow> bool \<Rightarrow> bool list \<times> bool" where
  "update_status subs i st clientsConnected =
     (if i < COUNT
      then let st' = st[i := 0 < subs i]
           in update_status subs (Suc i) st' (clientsConnected \<or> st' ! i)
      else (st, clientsConnected))"
  by pat_completeness auto
termination
  by (relation "measure (\<lambda>(subs, i, st, c). COUNT - i)") auto

declare update_status.simps [simp del]

definition callbackTopicStatus :: "'d Royale \<Rightarrow> (nat \<Rightarrow> nat) \<Rightarrow> 'd PicoFlexx \<Rightarrow> 'd PicoFlexx" where
  "callbackTopicStatus cam subs s =
     (let (st, clientsConnected) = update_status subs 0 (status s) False;
          s1 = s\<lparr>status := st\<rparr>
      in if clientsConnected \<and> \<not> dev_isCapturing cam (cameraDevice s1)
         then
           let s2 = s1\<lparr>processTime := 0, frame := 0, delayReceived := 0\<rparr>;
               (r, dev) = dev_startCapture cam (cameraDevice s2);
               s3 = s2\<lparr>cameraDevice := dev, calls := calls s2 @ [StartCapture]\<rparr>
           in if r \<noteq> SUCCESS then s3\<lparr>running := False, shutdown_requested := True\<rparr> else s3
         else if \<not> clientsConnected \<and> dev_isCapturing cam (cameraDevice s1)
         then
           let (r, dev) = dev_stopCapture cam (cameraDevice s1);
               s3 = s1\<lparr>cameraDevice := dev, calls := calls s1 @ [StopCapture]\<rparr>
           in if r \<noteq> SUCCESS then s3\<lparr>running := False, shutdown_requested := True\<rparr> else s3
         else s1)"

section \<open>isCurrent\<close>

definition isCurrent :: "'d PicoFlexx \<Rightarrow> bool" where
  "isCurrent s =
     (iters_since_data s < dropout_allow_iters \<or> iters_since_start s < startup_ignore_iters)"

section \<open>Exposure and use case\<close>

definition setUseCase :: "'d Royale \<Rightarrow> string \<Rightarrow> 'd PicoFlexx \<Rightarrow> bool \<times> 'd PicoFlexx" where
  "setUseCase cam uc s =
     (let (r, dev) = dev_setUseCase cam uc (cameraDevice s);
          s1 = s\<lparr>cameraDevice := dev, calls := calls s @ [SetUseCase uc]\<rparr>
      in (dev_getCurrentUseCase cam (cameraDevice s1) = uc, s1))"

definition setExposureMode :: "'d Royale \<Rightarrow> bool \<Rightarrow> 'd PicoFlexx \<Rightarrow> bool \<times> 'd PicoFlexx" where
  "setExposureMode cam automatic s =
     (let newMode = (if automatic then AUTOMATIC else MANUAL)
      in if newMode = dev_getExposureMode cam (cameraDevice s) then (True, s)
         else
           let (r, dev) = dev_setExposureMode cam newMode (cameraDevice s);
               s1 = s\<lparr>cameraDevice := dev, calls := calls s @ [SetExposureMode newMode]\<rparr>
           in if r \<noteq> SUCCESS then (False, s1) else (True, s1))"

definition setExposure :: "'d Royale \<Rightarrow> 32 word \<Rightarrow> 'd PicoFlexx \<Rightarrow> bool \<times> 'd PicoFlexx" where
  "setExposure cam exposure s =
     (let limits = dev_getExposureLimits cam (cameraDevice s)
      in if exposure < fst limits \<or> snd limits < exposure then (False, s)
         else
           let (r, dev) = dev_setExposureTime cam exposure (cameraDevice s);
               s1 = s\<lparr>cameraDevice := dev, calls := calls s @ [SetExposureTime exposure]\<rparr>
           in if r \<noteq> SUCCESS then (False, s1) else (True, s1))"

section \<open>callbackConfig\<close>

text \<open>
  The callback changes its argument \<open>config\<close> in place and the driver object; the model
  returns both. Each step of the body is a function of its own; \<open>Inl\<close> is the step's early
  \<open>return\<close> (with the argument as it is left), \<open>Inr\<close> falls through to the next step. The
  narrowing of a \<open>double\<close> to \<open>float\<close> and the widening back are parameters.
\<close>

record FloatConv =
  double_to_float :: "float64 \<Rightarrow> float32"
  float_to_double :: "float32 \<Rightarrow> float64"

definition callbackConfig_use_case ::
  "'d Royale \<Rightarrow> driverConfig \<Rightarrow> 32 word \<Rightarrow> 'd PicoFlexx
     \<Rightarrow> (driverConfig \<times> 'd PicoFlexx) + 'd PicoFlexx" where
  "callbackConfig_use_case cam cfg level s =
     (if level AND 0x01 \<noteq> 0
      then let (ok, s1) = setUseCase cam (use_case cfg) s
           in if \<not> ok then Inl (cfg\<lparr>use_case := use_case (config s1)\<rparr>, s1)
              else Inr (s1\<lparr>config := (config s1)\<lparr>use_case := use_case cfg\<rparr>\<rparr>)
      else Inr s)"

definition callbackConfig_exposure_mode ::
  "'d Royale \<Rightarrow> driverConfig \<Rightarrow> 32 word \<Rightarrow> 'd PicoFlexx
     \<Rightarrow> (driverConfig \<times> 'd PicoFlexx) + 'd PicoFlexx" where
  "callbackConfig_exposure_mode cam cfg level s =
     (if level AND 0x02 \<noteq> 0
      then let (ok, s1) = setExposureMode cam (exposure_mode cfg = 0) s
           in if \<not> ok then Inl (cfg\<lparr>exposure_mode := exposure_mode (config s1)\<rparr>, s1)
              else Inr (s1\<lparr>config := (config s1)\<lparr>exposure_mode := exposure_mode cfg\<rparr>\<rparr>)
      else Inr s)"

definition callbackConfig_exposure_time ::
  "'d Royale \<Rightarrow> driverConfig \<Rightarrow> 32 word \<Rightarrow> 'd PicoFlexx
     \<Rightarrow> (driverConfig \<times> 'd PicoFlexx) + 'd PicoFlexx" where
  "callbackConfig_exposure_time cam cfg level s =
     (if level AND 0x04 \<noteq> 0
      then if dev_getExposureMode cam (cameraDevice s) = AUTOMATIC
           then Inl (cfg\<lparr>exposure_time := exposure_time (config s)\<rparr>, s)
           else let (ok, s1) = setExposure cam (exposure_time cfg) s
                in if \<not> ok then Inl (cfg\<lparr>exposure_time := exposure_time (config s1)\<rparr>, s1)
                   else Inr (s1\<lparr>config := (config s1)\<lparr>exposure_time := exposure_time cfg\<rparr>\<rparr>)
      else Inr s)"

definition callbackConfig_max_noise ::
  "FloatConv \<Rightarrow> driverConfig \<Rightarrow> 32 word \<Rightarrow> 'd PicoFlexx \<Rightarrow> 'd PicoFlexx" where
  "callbackConfig_max_noise conv cfg level s =
     (if level AND 0x08 \<noteq> 0
      then s\<lparr>maxNoise := double_to_float conv (max_noise cfg),
             config := (config s)\<lparr>max_noise := max_noise cfg\<rparr>\<rparr>
      else s)"

definition callbackConfig_range_factor ::
  "FloatConv \<Rightarrow> driverConfig \<Rightarrow> 32 word \<Rightarrow> 'd PicoFlexx \<Rightarrow> 'd PicoFlexx" where
  "callbackConfig_range_factor conv cfg level s =
     (if level AND 0x10 \<noteq> 0
      then s\<lparr>rangeFactor := float_to_double conv (double_to_float conv (range_factor cfg)),
             config := (config s)\<lparr>range_factor := range_factor cfg\<rparr>\<rparr>
      else s)"

definition callbackConfig_limits :: "'d Royale \<Rightarrow> 32 word \<Rightarrow> 'd PicoFlexx \<Rightarrow> 'd PicoFlexx" where
  "callbackConfig_limits cam level s =
     (if level AND 0x01 \<noteq> 0 \<or> level AND 0x02 \<noteq> 0
      then let limits = dev_getExposureLimits cam (cameraDevice s);
               s1 = s\<lparr>configMin := (configMin s)\<lparr>exposure_time := fst limits\<rparr>,
                      configMax := (configMax s)\<lparr>exposure_time := snd limits\<rparr>\<rparr>
           in s1\<lparr>serverMin := configMin s1, serverMax := configMax s1\<rparr>
      else s)"

definition callbackConfig ::
  "'d Royale \<Rightarrow> FloatConv \<Rightarrow> driverConfig \<Rightarrow> 32 word \<Rightarrow> 'd PicoFlexx
     \<Rightarrow> driverConfig \<times> 'd PicoFlexx" where
  "callbackConfig cam conv cfg level s =
     (if level = 0xFFFFFFFF then (cfg, s)
      else case callbackConfig_use_case cam cfg level s of
        Inl ret \<Rightarrow> ret
      | Inr s1 \<Rightarrow>
          (case callbackConfig_exposure_mode cam cfg level s1 of
             Inl ret \<Rightarrow> ret
           | Inr s2 \<Rightarrow>
               (case callbackConfig_exposure_time cam cfg level s2 of
                  Inl ret \<Rightarrow> ret
                | Inr s3 \<Rightarrow>
                    (cfg, callbackConfig_limits cam level
                            (callbackConfig_range_factor conv cfg level
                               (callbackConfig_max_noise conv cfg level s3))))))"


section \<open>The processing thread\<close>

text \<open>What one call of \<open>publish\<close> hands to the publishers.\<close>

record Published =
  pubCameraInfo :: "CameraInfo option"
  pubMono16 :: "16 word Image option"
  pubDepth :: "float32 Image option"
  pubNoise :: "float32 Image option"
  pubCloud :: "PointCloud2 option"

definition publish :: "'e ExtractEnv_scheme \<Rightarrow> Messages \<Rightarrow> Published \<times> Messages" where
  "publish s m =
     (let st = status s;
          m1 = (if st ! CAMERA_INFO then m\<lparr>msgCameraInfo := empty_CameraInfo\<rparr> else m);
          m2 = (if st ! MONO_16 then m1\<lparr>msgMono16 := empty_Image\<rparr> else m1);
          m3 = (if st ! DEPTH then m2\<lparr>msgDepth := empty_Image\<rparr> else m2);
          m4 = (if st ! NOISE then m3\<lparr>msgNoise := empty_Image\<rparr> else m3);
          m5 = (if st ! CLOUD then m4\<lparr>msgCloud := empty_PointCloud2\<rparr> else m4)
      in (\<lparr>pubCameraInfo = (if st ! CAMERA_INFO then Some (msgCameraInfo m) else None),
           pubMono16 = (if st ! MONO_16 then Some (msgMono16 m) else None),
           pubDepth = (if st ! DEPTH then Some (msgDepth m) else None),
           pubNoise = (if st ! NOISE then Some (msgNoise m) else None),
           pubCloud = (if st ! CLOUD then Some (msgCloud m) else None)\<rparr>, m5))"

definition timings :: "int \<Rightarrow> 'd PicoFlexx \<Rightarrow> 'd PicoFlexx" where
  "timings now s =
     (let s1 = (if frame s = 0 then s\<lparr>startTime := now\<rparr>
                else if frame s mod framesPerTiming s = 0
                then s\<lparr>processTime := 0, startTime := now, delayReceived := 0\<rparr>
                else s)
      in s1\<lparr>frame := frame s1 + 1\<rparr>)"

text \<open>The local variables of \<open>process\<close> that live across iterations.\<close>

record ProcessLocals =
  local_data :: "DepthData option"
  msgs :: Messages

text \<open>
  The first half of an iteration of the loop in \<open>process\<close>, run with \<open>lockData\<close> held: the
  start-up counter, the timed wait, whose result is the value of \<open>newData\<close> when it returns,
  and either the \<open>continue\<close> or the take of the frame. The Boolean says whether a frame was
  taken.
\<close>

definition process_wait ::
  "'d PicoFlexx \<Rightarrow> ProcessLocals \<Rightarrow> bool \<times> 'd PicoFlexx \<times> ProcessLocals" where
  "process_wait s l =
     (let s1 = (if iters_since_start s \<le> startup_ignore_iters
                then s\<lparr>iters_since_start := iters_since_start s + 1\<rparr> else s)
      in if \<not> newData s1
         then (False, s1\<lparr>iters_since_data := iters_since_data s1 + 1\<rparr>, l)
         else
           let s2 = s1\<lparr>iters_since_data := 0\<rparr>
           in (True, s2\<lparr>data := local_data l, newData := False\<rparr>,
               l\<lparr>local_data := data s2\<rparr>))"

text \<open>
  The second half, run without \<open>lockData\<close>: extraction, publication and timing. The clock
  readings \<open>start\<close>, \<open>end\<close> and the one inside \<open>timings\<close> are arguments. \<open>None\<close> stands for
  the dereference of an empty \<open>data\<close> pointer.
\<close>

definition process_frame ::
  "int \<Rightarrow> int \<Rightarrow> int \<Rightarrow> 'd PicoFlexx \<Rightarrow> ProcessLocals
     \<Rightarrow> ('d PicoFlexx \<times> ProcessLocals \<times> DepthData \<times> Published) option" where
  "process_frame t_start t_end t_now s l =
     (case local_data l of
        None \<Rightarrow> None
      | Some d \<Rightarrow>
          let m1 = extractData s d (msgs l);
              (out, m2) = publish s m1;
              s1 = s\<lparr>processTime := processTime s + word_of_int (t_end - t_start)\<rparr>
          in Some (timings t_now s1, l\<lparr>msgs := m2\<rparr>, d, out))"

definition process_iteration ::
  "int \<Rightarrow> int \<Rightarrow> int \<Rightarrow> 'd PicoFlexx \<Rightarrow> ProcessLocals
     \<Rightarrow> ('d PicoFlexx \<times> ProcessLocals \<times> (DepthData \<times> Published) option) option" where
  "process_iteration t_start t_end t_now s l =
     (case process_wait s l of
        (False, s1, l1) \<Rightarrow> Some (s1, l1, None)
      | (True, s1, l1) \<Rightarrow>
          (case process_frame t_start t_end t_now s1 l1 of
             None \<Rightarrow> None
           | Some (s2, l2, d, out) \<Rightarrow> Some (s2, l2, Some (d, out))))"

section \<open>Runs of the driver\<close>

text \<open>
  The driver's state changes in the sensor callback, in the processing thread, and in the
  two ROS callbacks, each inside its critical section. A run is a sequence of these
  steps; an iteration of the processing loop happens only while the loop condition
  \<open>running && ros::ok()\<close> holds. \<open>processed\<close> lists the frames handed to \<open>extractData\<close>, the
  latest first.
\<close>

datatype event =
  NewData int DepthData
  | ProcessIter int int int
  | TopicStatus "nat \<Rightarrow> nat"
  | Config driverConfig "32 word"

record 'd System =
  drv :: "'d PicoFlexx"
  thread :: ProcessLocals
  processed :: "DepthData list"

definition step :: "'d Royale \<Rightarrow> FloatConv \<Rightarrow> event \<Rightarrow> 'd System \<Rightarrow> 'd System option" where
  "step cam conv ev sys =
     (case ev of
        NewData now d \<Rightarrow> Some (sys\<lparr>drv := onNewData now d (drv sys)\<rparr>)
      | ProcessIter t_start t_end t_now \<Rightarrow>
          if running (drv sys) \<and> \<not> shutdown_requested (drv sys)
          then (case process_iteration t_start t_end t_now (drv sys) (thread sys) of
                  None \<Rightarrow> None
                | Some (s, l, None) \<Rightarrow> Some (sys\<lparr>drv := s, thread := l\<rparr>)
                | Some (s, l, Some (d, out)) \<Rightarrow>
                    Some (sys\<lparr>drv := s, thread := l, processed := d # processed sys\<rparr>))
          else Some sys
      | TopicStatus subs \<Rightarrow> Some (sys\<lparr>drv := callbackTopicStatus cam subs (drv sys)\<rparr>)
      | Config cfg level \<Rightarrow> Some (sys\<lparr>drv := snd (callbackConfig cam conv cfg level (drv sys))\<rparr>))"

fun run :: "'d Royale \<Rightarrow> FloatConv \<Rightarrow> event list \<Rightarrow> 'd System \<Rightarrow> 'd System option" where
  "run cam conv [] sys = Some sys"
| "run cam conv (ev # evs) sys =
     (case step cam conv ev sys of None \<Rightarrow> None | Some sys' \<Rightarrow> run cam conv evs sys')"

text \<open>The frames deposited during a run.\<close>

fun deposits :: "event list \<Rightarrow> DepthData list" where
  "deposits [] = []"
| "deposits (NewData now d # evs) = d # deposits evs"
| "deposits (ev # evs) = deposits evs"

section \<open>A simulated device and concrete states\<close>

text \<open>
  A device for concrete runs: it knows two use cases, whose names give their largest
  exposure time, accepts every request on a known use case, and answers the two capture
  requests with the statuses it is built with.
\<close>

record SimCamera =
  sim_capturing :: bool
  sim_mode :: ExposureMode
  sim_use_case :: string
  sim_exposure :: "32 word"

definition sim_limits :: "string \<Rightarrow> 32 word \<times> 32 word" where
  "sim_limits uc = (if uc = ''MODE_45FPS_500'' then (50, 500) else (50, 2000))"

definition sim_camera :: "CameraStatus \<Rightarrow> CameraStatus \<Rightarrow> SimCamera Royale" where
  "sim_camera start_result stop_result =
     \<lparr>dev_isCapturing = sim_capturing,
      dev_startCapture = (\<lambda>d. (start_result,
         if start_result = SUCCESS then d\<lparr>sim_capturing := True\<rparr> else d)),
      dev_stopCapture = (\<lambda>d. (stop_result,
         if stop_result = SUCCESS then d\<lparr>sim_capturing := False\<rparr> else d)),
      dev_getExposureMode = sim_mode,
      dev_setExposureMode = (\<lambda>m d. (SUCCESS, d\<lparr>sim_mode := m\<rparr>)),
      dev_getExposureLimits = (\<lambda>d. sim_limits (sim_use_case d)),
      dev_setExposureTime = (\<lambda>e d. (SUCCESS, d\<lparr>sim_exposure := e\<rparr>)),
      dev_setUseCase = (\<lambda>uc d.
         if uc = ''MODE_45FPS_500'' \<or> uc = ''MODE_9_5FPS_2000''
         then (SUCCESS, d\<lparr>sim_use_case := uc\<rparr>) else (FAILED 1, d)),
      dev_getCurrentUseCase = sim_use_case\<rparr>"

text \<open>
  A stand-in for the two float conversions, which no concrete run below reaches: it keeps
  or restores the upper half of the pattern and does not round.
\<close>

definition sim_conv :: FloatConv where
  "sim_conv = \<lparr>double_to_float = (\<lambda>w. ucast (drop_bit 32 w)),
               float_to_double = (\<lambda>w. push_bit 32 (ucast w))\<rparr>"

text \<open>
  The driver after \<open>start()\<close> on the simulated device in manual exposure mode, with use
  case \<open>uc\<close> and the store's exposure time \<open>et\<close>; the cached limits are the device's.
\<close>

definition started_config :: "string \<Rightarrow> 32 word \<Rightarrow> driverConfig" where
  "started_config uc et =
     \<lparr>use_case = uc, exposure_mode = 1, exposure_time = et,
      max_noise = 0x3FB1EB8520000000, range_factor = 0x4000000000000000\<rparr>"

definition started_driver :: "string \<Rightarrow> 32 word \<Rightarrow> SimCamera PicoFlexx" where
  "started_driver uc et =
     \<lparr>status = replicate COUNT False, cameraInfo = empty_CameraInfo,
      baseNameTF = ''pico_flexx'', maxNoise = 0x3D8F5C29,
      config = started_config uc et,
      configMin = (started_config uc et)\<lparr>exposure_mode := 0, exposure_time := fst (sim_limits uc),
                    max_noise := 0, range_factor := 0\<rparr>,
      configMax = (started_config uc et)\<lparr>exposure_mode := 1, exposure_time := snd (sim_limits uc),
                    max_noise := 0x3FB999999999999A, range_factor := 0x401C000000000000\<rparr>,
      cameraDevice = \<lparr>sim_capturing = False, sim_mode = MANUAL, sim_use_case = uc,
                       sim_exposure = et\<rparr>,
      calls = [], data = None, running = True, newData = False,
      frame = 0, framesPerTiming = 25, processTime = 0, delayReceived = 0, startTime = 0,
      rangeFactor = 0x4000000000000000, iters_since_start = 0, iters_since_data = 0,
      shutdown_requested = False,
      serverMin = (started_config uc et)\<lparr>exposure_mode := 0, exposure_time := fst (sim_limits uc),
                    max_noise := 0, range_factor := 0\<rparr>,
      serverMax = (started_config uc et)\<lparr>exposure_mode := 1, exposure_time := snd (sim_limits uc),
                    max_noise := 0x3FB999999999999A, range_factor := 0x401C000000000000\<rparr>\<rparr>"

definition fresh_Messages :: Messages where
  "fresh_Messages =
     \<lparr>msgCameraInfo = empty_CameraInfo, msgCloud = empty_PointCloud2,
      msgMono16 = empty_Image, msgDepth = empty_Image, msgNoise = empty_Image\<rparr>"

definition started_system :: "SimCamera System" where
  "started_system =
     \<lparr>drv = started_driver ''MODE_9_5FPS_2000'' 1000,
      thread = \<lparr>local_data = None, msgs = fresh_Messages\<rparr>, processed = []\<rparr>"

text \<open>The frame of the spec's end-to-end scenario, and two frames that differ in a stamp.\<close>

definition scenario_frame :: DepthData where
  "scenario_frame =
     \<lparr>dd_version = 1, dd_timeStamp = 0, dd_width = 2, dd_height = 1, dd_exposureTimes = [],
      dd_points =
        [\<lparr>pt_x = 0x3F800000, pt_y = 0x40000000, pt_z = 0x40400000, pt_noise = 0x3C23D70A,
          pt_grayValue = 100, pt_depthConfidence = True\<rparr>,
         \<lparr>pt_x = 0, pt_y = 0, pt_z = 0, pt_noise = 0x3F000000,
          pt_grayValue = 50, pt_depthConfidence = True\<rparr>]\<rparr>"

text \<open>The same frame with a NaN as the noise of its second, confident point.\<close>

definition nan_noise_frame :: DepthData where
  "nan_noise_frame =
     scenario_frame\<lparr>dd_points :=
        [\<lparr>pt_x = 0x3F800000, pt_y = 0x40000000, pt_z = 0x40400000, pt_noise = 0x3C23D70A,
          pt_grayValue = 100, pt_depthConfidence = True\<rparr>,
         \<lparr>pt_x = 0x3F800000, pt_y = 0x40000000, pt_z = 0x40400000, pt_noise = 0x7FC00000,
          pt_grayValue = 50, pt_depthConfidence = True\<rparr>]\<rparr>"

definition scenario_env :: "bool list \<Rightarrow> ExtractEnv" where
  "scenario_env st =
     \<lparr>status = st, cameraInfo = empty_CameraInfo, baseNameTF = ''pico_flexx'',
      maxNoise = 0x3D8F5C29\<rparr>"

definition frame_A :: DepthData where
  "frame_A = scenario_frame\<lparr>dd_timeStamp := 1000\<rparr>"

definition frame_B :: DepthData where
  "frame_B = scenario_frame\<lparr>dd_timeStamp := 2000\<rparr>"

section \<open>Auxiliary notions for the proofs\<close>

definition float_scaled :: "nat \<Rightarrow> nat" where
  "float_scaled n =
     (if n div 2 ^ 23 = 0 then 2 * (n mod 2 ^ 23)
      else (2 ^ 23 + n mod 2 ^ 23) * 2 ^ (n div 2 ^ 23))"

definition buffers_sized :: "nat \<Rightarrow> PointBuffers \<Rightarrow> bool" where
  "buffers_sized n b =
     (length (bufCloud b) = 5 * n \<and> length (bufDepth b) = n \<and>
      length (bufNoise b) = n \<and> length (bufMono16 b) = n)"

definition point_valid :: "float32 \<Rightarrow> DepthPoint \<Rightarrow> bool" where
  "point_valid maxN p = (pt_depthConfidence p \<and> float_less (pt_noise p) maxN)"

definition cloud_value :: "float32 \<Rightarrow> DepthPoint \<Rightarrow> nat \<Rightarrow> float32" where
  "cloud_value m p k =
     (if k = 4 then float_of_uint16 (pt_grayValue p)
      else if point_valid m p
      then (if k = 0 then pt_x p else if k = 1 then pt_y p else if k = 2 then pt_z p
            else pt_noise p)
      else (if k = 3 then float_zero else quiet_NaN))"

text \<open>
  For the exchange slot: the frame a take would hand over, the fact that a raised \<open>newData\<close>
  flag comes with a frame, and what the two ROS callbacks leave alone.
\<close>

definition pending :: "'d PicoFlexx \<Rightarrow> DepthData list" where
  "pending s = (if newData s then (case data s of None \<Rightarrow> [] | Some d \<Rightarrow> [d]) else [])"

definition slot_ok :: "'d PicoFlexx \<Rightarrow> bool" where
  "slot_ok s = (newData s \<longrightarrow> data s \<noteq> None)"

definition same_core :: "'d PicoFlexx \<Rightarrow> 'd PicoFlexx \<Rightarrow> bool" where
  "same_core s s' =
     (data s' = data s \<and> newData s' = newData s \<and>
      iters_since_start s' = iters_since_start s \<and> iters_since_data s' = iters_since_data s)"
section \<open>Properties of the float conversion\<close>

lemma unat_and_magnitude: "unat ((w::32 word) AND 0x7FFFFFFF) = unat w mod 2 ^ 31"
proof -
  have "(0x7FFFFFFF :: 32 word) = mask 31" by (simp add: mask_eq_exp_minus_1)
  then have "unat (w AND 0x7FFFFFFF) = unat (take_bit 31 w)"
    by (simp only: take_bit_eq_mask)
  also have "\<dots> = take_bit 31 (unat w)" by (rule unsigned_take_bit_eq)
  also have "\<dots> = unat w mod 2 ^ 31" by (rule take_bit_eq_mod)
  finally show ?thesis .
qed

lemma log2_floor_bounds: "0 < n \<Longrightarrow> 2 ^ log2_floor n \<le> n \<and> n < 2 * 2 ^ log2_floor n"
proof (induction n rule: log2_floor.induct)
  case (1 n)
  show ?case
  proof (cases "n < 2")
    case True
    with "1.prems" show ?thesis by (simp add: log2_floor.simps [of n])
  next
    case False
    then have "0 < n div 2" by simp
    from "1.IH" [OF False this] False show ?thesis
      by (simp add: log2_floor.simps [of n]) linarith
  qed
qed

lemma float_of_uint16_exact: "float_value (float_of_uint16 g) = of_nat (unat g)"
proof (cases "g = 0")
  case True
  then show ?thesis
    by (simp add: float_of_uint16_def float_zero_def float_value_def float_magnitude_def)
next
  case False
  define n where "n = unat g"
  define e where "e = log2_floor n"
  define m where "m = n * 2 ^ (23 - e) - 2 ^ 23"
  define N where "N = (127 + e) * 2 ^ 23 + m"
  have n0: "0 < n" using False by (simp add: n_def unat_gt_0)
  have n16: "n < 2 ^ 16" using unsigned_less [of g, where ?'a = nat] by (simp add: n_def)
  have lo: "2 ^ e \<le> n" and hi: "n < 2 * 2 ^ e"
    using log2_floor_bounds [OF n0] by (simp_all add: e_def)
  have e15: "e \<le> 15"
  proof (rule ccontr)
    assume "\<not> e \<le> 15"
    then have "16 \<le> e" by simp
    then have "(2::nat) ^ 16 \<le> 2 ^ e" by (rule power_increasing) simp
    with lo n16 show False by simp
  qed
  have split: "(2::nat) ^ 23 = 2 ^ e * 2 ^ (23 - e)"
    using e15 by (simp flip: power_add)
  have ge: "2 ^ 23 \<le> n * 2 ^ (23 - e)"
    unfolding split using lo by simp
  have lt: "n * 2 ^ (23 - e) < 2 * 2 ^ 23"
  proof -
    have "n * 2 ^ (23 - e) < (2 * 2 ^ e) * 2 ^ (23 - e)"
      by (rule mult_strict_right_mono [OF hi]) simp
    also have "\<dots> = 2 * (2 ^ e * 2 ^ (23 - e))" by (simp only: mult.assoc)
    also have "\<dots> = 2 * 2 ^ 23" by (simp only: split [symmetric])
    finally show ?thesis .
  qed
  have m23: "m < 2 ^ 23" using lt ge by (simp add: m_def)
  have mn: "2 ^ 23 + m = n * 2 ^ (23 - e)" using ge by (simp add: m_def)
  have N31: "N < 2 ^ 31" using m23 e15 by (simp add: N_def)
  have w: "float_of_uint16 g = word_of_nat N"
    using False by (simp add: float_of_uint16_def Let_def N_def m_def e_def n_def)
  have u: "unat (word_of_nat N :: 32 word) = N"
    using N31 by (simp add: of_nat_inverse)
  have nb: "\<not> bit (word_of_nat N :: 32 word) 31"
  proof -
    have "bit (word_of_nat N :: 32 word) 31 \<longleftrightarrow> bit (unat (word_of_nat N :: 32 word)) 31"
      by (simp add: bit_unsigned_iff)
    also have "\<dots> \<longleftrightarrow> bit N 31" by (simp only: u)
    also have "\<dots> \<longleftrightarrow> False" using N31 by (simp add: bit_iff_odd)
    finally show ?thesis by simp
  qed
  have dm: "((127 + e) * B + m) mod B = m \<and> ((127 + e) * B + m) div B = 127 + e"
    if "m < B" for B :: nat
    using that by simp
  have md: "N mod 2 ^ 23 = m" and dv: "N div 2 ^ 23 = 127 + e"
    unfolding N_def using dm [OF m23] by blast+
  have ma: "unat (word_of_nat N AND 0x7FFFFFFF :: 32 word) = N"
    using N31 by (simp add: unat_and_magnitude u)
  have ex0: "127 + e \<noteq> 0" "127 + e < 150" "150 - (127 + e) = 23 - e" using e15 by simp_all
  have "float_value (word_of_nat N) = of_nat (2 ^ 23 + m) / 2 ^ (23 - e)"
    by (simp only: float_value_def float_magnitude_def ma nb md dv ex0 Let_def if_False if_True)
  also have "\<dots> = of_nat (n * 2 ^ (23 - e)) / 2 ^ (23 - e)" by (simp only: mn)
  also have "\<dots> = of_nat n" by simp
  finally show ?thesis by (simp add: w n_def)
qed

section \<open>Properties of the float comparison\<close>

text \<open>
  On patterns that are not NaNs the comparison is the order of the values
  (\<open>float_less_iff_value\<close>). Two numbers are ordered one way or the other, a NaN is
  ordered with nothing; so a point is rejected by the validity test exactly when it lacks
  confidence, its noise is at least the threshold, or one of the two is a NaN.
\<close>

lemma float_magnitude_scaled: "float_magnitude n = of_nat (float_scaled n) / 2 ^ 150"
proof -
  have key: "(if e = 0 then of_nat m / 2 ^ 149
         else if e < 150 then of_nat (2 ^ 23 + m) / 2 ^ (150 - e)
         else of_nat (2 ^ 23 + m) * 2 ^ (e - 150)) =
        real (if e = 0 then 2 * m else (2 ^ 23 + m) * 2 ^ e) / 2 ^ 150" for e m :: nat
  proof -
    consider "e = 0" | "0 < e" "e < 150" | "150 \<le> e" by linarith
    then show ?thesis
    proof cases
      case 1
      then show ?thesis by simp
    next
      case 2
      then have "(2::real) ^ (150 - e) = 2 ^ 150 / 2 ^ e"
        by (simp add: power_diff)
      then show ?thesis using 2 by simp
    next
      case 3
      then have "(2::real) ^ (e - 150) = 2 ^ e / 2 ^ 150"
        by (simp add: power_diff)
      then show ?thesis using 3 by simp
    qed
  qed
  show ?thesis
    unfolding float_magnitude_def float_scaled_def Let_def by (rule key)
qed

lemma float_scaled_Suc: "float_scaled n < float_scaled (Suc n)"
proof -
  define e where "e = n div 2 ^ 23"
  define m where "m = n mod 2 ^ 23"
  have n: "n = e * 2 ^ 23 + m" by (simp add: e_def m_def)
  have m23: "m < 2 ^ 23" by (simp add: m_def)
  show ?thesis
  proof (cases "Suc m < 2 ^ 23")
    case True
    have "Suc n = e * 2 ^ 23 + Suc m" using n by simp
    then have d: "Suc n div 2 ^ 23 = e" and r: "Suc n mod 2 ^ 23 = Suc m"
      using True by simp_all
    show ?thesis
      unfolding float_scaled_def d r e_def [symmetric] m_def [symmetric] by simp
  next
    case False
    then have m: "m = 2 ^ 23 - 1" using m23 by simp
    have "Suc n = Suc e * 2 ^ 23" using n m by simp
    then have d: "Suc n div 2 ^ 23 = Suc e" and r: "Suc n mod 2 ^ 23 = 0"
      by simp_all
    have "(2 ^ 23 + m) * 2 ^ e < (2 ^ 23 + 0) * 2 ^ Suc e"
      using m by simp
    moreover have "2 * m < (2 ^ 23 + 0) * 2 ^ Suc 0" using m by simp
    ultimately show ?thesis
      unfolding float_scaled_def d r e_def [symmetric] m_def [symmetric]
      by (cases "e = 0") simp_all
  qed
qed

lemma float_scaled_mono: "a < b \<Longrightarrow> float_scaled a < float_scaled b"
  by (rule lift_Suc_mono_less [of float_scaled]) (rule float_scaled_Suc)

lemma float_scaled_0: "float_scaled 0 = 0"
  by (simp add: float_scaled_def)

lemma float_magnitude_less: "(float_magnitude a < float_magnitude b) = (a < b)"
proof -
  have "(float_scaled a < float_scaled b) = (a < b)"
    using float_scaled_mono [of a b] float_scaled_mono [of b a]
    by (metis less_irrefl linorder_neqE_nat order_less_trans)
  then show ?thesis
    by (simp add: float_magnitude_scaled divide_less_cancel)
qed

lemma float_magnitude_0: "float_magnitude 0 = 0"
  by (simp add: float_magnitude_scaled float_scaled_0)

lemma float_magnitude_pos: "0 < n \<Longrightarrow> 0 < float_magnitude n"
  using float_magnitude_less [of 0 n] by (simp add: float_magnitude_0)

lemma float_less_iff_value:
  assumes "\<not> float_isnan a" "\<not> float_isnan b"
  shows "float_less a b = (float_value a < float_value b)"
proof -
  define x where "x = unat (a AND 0x7FFFFFFF)"
  define y where "y = unat (b AND 0x7FFFFFFF)"
  have ka: "float_key a = (if bit a 31 then - int x else int x)"
    by (simp add: float_key_def x_def)
  have kb: "float_key b = (if bit b 31 then - int y else int y)"
    by (simp add: float_key_def y_def)
  have va: "float_value a = (if bit a 31 then - float_magnitude x else float_magnitude x)"
    by (simp add: float_value_def x_def)
  have vb: "float_value b = (if bit b 31 then - float_magnitude y else float_magnitude y)"
    by (simp add: float_value_def y_def)
  have p: "0 \<le> float_magnitude n" for n
    using float_magnitude_pos [of n] float_magnitude_0 by (cases "n = 0") auto
  have z: "(float_magnitude n = 0) = (n = 0)" for n
    using float_magnitude_pos [of n] float_magnitude_0 by (cases "n = 0") auto
  have "(float_key a < float_key b) = (float_value a < float_value b)"
  proof (cases "bit a 31"; cases "bit b 31")
    assume "bit a 31" "bit b 31"
    then show ?thesis using float_magnitude_less [of y x] by (simp add: ka kb va vb)
  next
    assume s: "bit a 31" "\<not> bit b 31"
    have "(- float_magnitude x < float_magnitude y) = (\<not> (x = 0 \<and> y = 0))"
      using p [of x] p [of y] z [of x] z [of y] by linarith
    moreover have "(- int x < int y) = (\<not> (x = 0 \<and> y = 0))" by linarith
    ultimately show ?thesis using s by (simp add: ka kb va vb)
  next
    assume s: "\<not> bit a 31" "bit b 31"
    have "\<not> float_magnitude x < - float_magnitude y"
      using p [of x] p [of y] by linarith
    then show ?thesis using s by (simp add: ka kb va vb)
  next
    assume "\<not> bit a 31" "\<not> bit b 31"
    then show ?thesis using float_magnitude_less [of x y] by (simp add: ka kb va vb)
  qed
  then show ?thesis using assms by (simp add: float_less_def)
qed

lemma float_less_or_ge:
  "\<not> float_isnan a \<Longrightarrow> \<not> float_isnan b \<Longrightarrow> float_less a b = (\<not> float_ge a b)"
  by (auto simp: float_less_def float_ge_def)

lemma float_nan_unordered:
  "float_isnan a \<or> float_isnan b \<Longrightarrow> \<not> float_less a b \<and> \<not> float_ge a b"
  by (auto simp: float_less_def float_ge_def)

lemma point_valid_iff:
  "(\<not> point_valid maxN p) =
     (\<not> pt_depthConfidence p \<or> float_ge (pt_noise p) maxN \<or>
      float_isnan (pt_noise p) \<or> float_isnan maxN)"
  by (auto simp: point_valid_def float_less_def float_ge_def)

lemma float_less_examples:
  "float_less 0x3C23D70A 0x3D8F5C29"
  "\<not> float_less 0x3F000000 0x3D8F5C29"
  "float_less 0xBF800000 0x3F800000"
  "\<not> float_less 0x80000000 0x00000000"
  "float_less 0x3F800000 0x7F800000"
  "\<not> float_less quiet_NaN 0x3F800000"
  "float_isnan quiet_NaN"
  by (simp_all add: float_less_def float_isnan_def float_key_def quiet_NaN_def)

section \<open>Properties of extractData\<close>

lemma write_point_sized: "buffers_sized n (write_point m p i b) = buffers_sized n b"
  by (simp add: write_point_def buffers_sized_def Let_def)

lemma extract_loop_sized: "buffers_sized n (extract_loop m pts i b) = buffers_sized n b"
proof (induction m pts i b rule: extract_loop.induct)
  case (1 maxN pts i b)
  show ?case
  proof (cases "i < length pts")
    case True
    with 1 show ?thesis
      by (simp add: extract_loop.simps [of maxN pts i b] write_point_sized)
  next
    case False
    then show ?thesis by (simp add: extract_loop.simps [of maxN pts i b])
  qed
qed

lemma extract_loop_cell:
  assumes wp: "\<And>p i b. buffers_sized (length pts) b \<Longrightarrow> i < length pts \<Longrightarrow>
                 rd (write_point m p i b) = (rd b)(i := v p)"
    and sz: "buffers_sized (length pts) b"
    and j: "j < length pts"
  shows "rd (extract_loop m pts i b) j = (if i \<le> j then v (pts ! j) else rd b j)"
  using wp sz j
proof (induction m pts i b rule: extract_loop.induct)
  case (1 maxN pts i b)
  note wp = "1.prems"(1) and sz = "1.prems"(2) and j = "1.prems"(3)
  show ?case
  proof (cases "i < length pts")
    case True
    have sz': "buffers_sized (length pts) (write_point maxN (pts ! i) i b)"
      using sz by (simp add: write_point_sized)
    have "rd (extract_loop maxN pts i b) j =
          rd (extract_loop maxN pts (Suc i) (write_point maxN (pts ! i) i b)) j"
      using True by (simp add: extract_loop.simps [of maxN pts i b])
    also have "\<dots> = (if Suc i \<le> j then v (pts ! j)
                      else rd (write_point maxN (pts ! i) i b) j)"
      using "1.IH" [OF True wp sz' j] by simp
    also have "\<dots> = (if i \<le> j then v (pts ! j) else rd b j)"
    proof -
      consider "j < i" | "j = i" | "Suc i \<le> j" by linarith
      then show ?thesis
        by cases (simp_all add: wp [OF sz True])
    qed
    finally show ?thesis .
  next
    case False
    then show ?thesis using j by (simp add: extract_loop.simps [of maxN pts i b])
  qed
qed

lemma resize_vec_length: "length (resize_vec n d xs) = n"
  by (simp add: resize_vec_def)

lemma float_ge_not_less: "float_ge a b \<Longrightarrow> \<not> float_less a b"
  by (simp add: float_ge_def float_less_def)

lemma write_point_depth:
  "buffers_sized n b \<Longrightarrow> i < n \<Longrightarrow>
   (\<lambda>j. bufDepth (write_point m p i b) ! j) =
   (\<lambda>j. bufDepth b ! j)(i := if point_valid m p then pt_z p else quiet_NaN)"
  by (rule ext) (simp add: write_point_def buffers_sized_def point_valid_def Let_def)

lemma write_point_noise:
  "buffers_sized n b \<Longrightarrow> i < n \<Longrightarrow>
   (\<lambda>j. bufNoise (write_point m p i b) ! j) =
   (\<lambda>j. bufNoise b ! j)(i := if point_valid m p then pt_noise p else float_zero)"
  by (rule ext) (simp add: write_point_def buffers_sized_def point_valid_def Let_def)

lemma write_point_mono16:
  "buffers_sized n b \<Longrightarrow> i < n \<Longrightarrow>
   (\<lambda>j. bufMono16 (write_point m p i b) ! j) = (\<lambda>j. bufMono16 b ! j)(i := pt_grayValue p)"
  by (rule ext) (simp add: write_point_def buffers_sized_def Let_def)

lemma write_point_cloud:
  assumes "buffers_sized n b" "i < n" "k < 5"
  shows "(\<lambda>j. bufCloud (write_point m p i b) ! (5 * j + k)) =
         (\<lambda>j. bufCloud b ! (5 * j + k))(i := cloud_value m p k)"
proof (rule ext)
  fix j
  have len: "length (bufCloud b) = 5 * n" using assms(1) by (simp add: buffers_sized_def)
  have k: "k = 0 \<or> k = 1 \<or> k = 2 \<or> k = 3 \<or> k = 4" using assms(3) by linarith
  show "bufCloud (write_point m p i b) ! (5 * j + k) =
        ((\<lambda>j. bufCloud b ! (5 * j + k))(i := cloud_value m p k)) j"
  proof (cases "j = i")
    case True
    have "5 * i + 4 < length (bufCloud b)" using len assms(2) by simp
    then show ?thesis using True k
      by (auto simp: write_point_def Let_def cloud_value_def point_valid_def)
  next
    case False
    then have "5 * j + k \<noteq> 5 * i" "5 * j + k \<noteq> 5 * i + 1" "5 * j + k \<noteq> 5 * i + 2"
      "5 * j + k \<noteq> 5 * i + 3" "5 * j + k \<noteq> 5 * i + 4"
      using assms(3) by presburger+
    then show ?thesis using False
      by (simp add: write_point_def Let_def)
  qed
qed

lemma extractData_points_buffers:
  "\<exists>b0. buffers_sized (length (dd_points d)) b0 \<and>
     img_data (msgDepth (extractData_points s hdr d m)) =
       bufDepth (extract_loop (maxNoise s) (dd_points d) 0 b0) \<and>
     img_data (msgNoise (extractData_points s hdr d m)) =
       bufNoise (extract_loop (maxNoise s) (dd_points d) 0 b0) \<and>
     img_data (msgMono16 (extractData_points s hdr d m)) =
       bufMono16 (extract_loop (maxNoise s) (dd_points d) 0 b0) \<and>
     pc_data (msgCloud (extractData_points s hdr d m)) =
       bufCloud (extract_loop (maxNoise s) (dd_points d) 0 b0)"
  by (rule exI [where x = "\<lparr>bufCloud = resize_vec (5 * length (dd_points d)) 0
          (pc_data (msgCloud m)),
        bufDepth = resize_vec (length (dd_points d)) 0 (img_data (msgDepth m)),
        bufNoise = resize_vec (length (dd_points d)) 0 (img_data (msgNoise m)),
        bufMono16 = resize_vec (length (dd_points d)) 0 (img_data (msgMono16 m))\<rparr>"])
     (simp add: extractData_points_def Let_def buffers_sized_def resize_vec_length)

lemma extractData_points_cells:
  assumes i: "i < length (dd_points d)"
  shows "length (img_data (msgDepth (extractData_points s hdr d m))) = length (dd_points d)"
    and "length (img_data (msgNoise (extractData_points s hdr d m))) = length (dd_points d)"
    and "length (img_data (msgMono16 (extractData_points s hdr d m))) = length (dd_points d)"
    and "length (pc_data (msgCloud (extractData_points s hdr d m))) = 5 * length (dd_points d)"
    and "img_data (msgDepth (extractData_points s hdr d m)) ! i =
           (if point_valid (maxNoise s) (dd_points d ! i) then pt_z (dd_points d ! i)
            else quiet_NaN)"
    and "img_data (msgNoise (extractData_points s hdr d m)) ! i =
           (if point_valid (maxNoise s) (dd_points d ! i) then pt_noise (dd_points d ! i)
            else float_zero)"
    and "img_data (msgMono16 (extractData_points s hdr d m)) ! i =
           pt_grayValue (dd_points d ! i)"
    and "k < 5 \<Longrightarrow> pc_data (msgCloud (extractData_points s hdr d m)) ! (5 * i + k) =
           cloud_value (maxNoise s) (dd_points d ! i) k"
proof -
  obtain b0 where sz: "buffers_sized (length (dd_points d)) b0"
    and de: "img_data (msgDepth (extractData_points s hdr d m)) =
       bufDepth (extract_loop (maxNoise s) (dd_points d) 0 b0)"
    and no: "img_data (msgNoise (extractData_points s hdr d m)) =
       bufNoise (extract_loop (maxNoise s) (dd_points d) 0 b0)"
    and mo: "img_data (msgMono16 (extractData_points s hdr d m)) =
       bufMono16 (extract_loop (maxNoise s) (dd_points d) 0 b0)"
    and cl: "pc_data (msgCloud (extractData_points s hdr d m)) =
       bufCloud (extract_loop (maxNoise s) (dd_points d) 0 b0)"
    using extractData_points_buffers [of d s hdr m] by blast
  have "buffers_sized (length (dd_points d)) (extract_loop (maxNoise s) (dd_points d) 0 b0)"
    using sz by (simp add: extract_loop_sized)
  then show "length (img_data (msgDepth (extractData_points s hdr d m))) = length (dd_points d)"
    and "length (img_data (msgNoise (extractData_points s hdr d m))) = length (dd_points d)"
    and "length (img_data (msgMono16 (extractData_points s hdr d m))) = length (dd_points d)"
    and "length (pc_data (msgCloud (extractData_points s hdr d m))) = 5 * length (dd_points d)"
    by (simp_all add: buffers_sized_def de no mo cl)
  show "img_data (msgDepth (extractData_points s hdr d m)) ! i =
           (if point_valid (maxNoise s) (dd_points d ! i) then pt_z (dd_points d ! i)
            else quiet_NaN)"
    using extract_loop_cell [where rd = "\<lambda>b j. bufDepth b ! j" and i = 0,
        OF write_point_depth sz i]
    by (simp add: de)
  show "img_data (msgNoise (extractData_points s hdr d m)) ! i =
           (if point_valid (maxNoise s) (dd_points d ! i) then pt_noise (dd_points d ! i)
            else float_zero)"
    using extract_loop_cell [where rd = "\<lambda>b j. bufNoise b ! j" and i = 0,
        OF write_point_noise sz i]
    by (simp add: no)
  show "img_data (msgMono16 (extractData_points s hdr d m)) ! i =
          pt_grayValue (dd_points d ! i)"
    using extract_loop_cell [where rd = "\<lambda>b j. bufMono16 b ! j" and i = 0,
        OF write_point_mono16 sz i]
    by (simp add: mo)
  show "pc_data (msgCloud (extractData_points s hdr d m)) ! (5 * i + k) =
           cloud_value (maxNoise s) (dd_points d ! i) k" if "k < 5"
    using extract_loop_cell [where rd = "\<lambda>b j. bufCloud b ! (5 * j + k)" and i = 0,
        OF write_point_cloud [OF _ _ that] sz i]
    by (simp add: cl)
qed

text \<open>\<open>extractData\<close> runs the point-level step exactly when a point-level channel is subscribed.\<close>

lemma extractData_runs_points:
  assumes "status s ! MONO_16 \<or> status s ! DEPTH \<or> status s ! NOISE \<or> status s ! CLOUD"
  shows "extractData s d m =
     extractData_points s (make_header s d) d
       (if status s ! CAMERA_INFO
        then m\<lparr>msgCameraInfo := (cameraInfo s)\<lparr>ci_header := make_header s d,
                  ci_height := ucast (dd_height d), ci_width := ucast (dd_width d)\<rparr>\<rparr>
        else m)"
  using assms by (simp add: extractData_def Let_def)

text \<open>
  Claim C1. In the point-level step of \<open>extractData\<close>, every point \<open>i\<close> of the frame that
  fails the validity test gets NaN in the depth image, 0.0 in the noise image, NaN in the
  cloud's x, y and z, 0.0 in the cloud's noise field, and its gray value in the mono16
  image and, converted to \<open>float\<close> (exactly, see \<open>float_of_uint16_exact\<close>), in the cloud's
  intensity field. All these cells exist in the output buffers. Failing the test is the
  negation of the loop's condition: by \<open>point_valid_iff\<close> these are the points whose
  \<open>depthConfidence\<close> is false or whose noise is at least \<open>maxNoise\<close>, and also those where
  the noise or the threshold is a NaN. (\<open>extractData\<close> runs this step when some point-level
  channel is subscribed, see \<open>extractData_runs_points\<close>.)
\<close>

theorem extractData_invalid_point:
  assumes "i < length (dd_points d)"
    and "\<not> (pt_depthConfidence (dd_points d ! i) \<and>
            float_less (pt_noise (dd_points d ! i)) (maxNoise s))"
  shows "i < length (img_data (msgDepth (extractData_points s hdr d m))) \<and>
         i < length (img_data (msgNoise (extractData_points s hdr d m))) \<and>
         i < length (img_data (msgMono16 (extractData_points s hdr d m))) \<and>
         5 * i + 4 < length (pc_data (msgCloud (extractData_points s hdr d m))) \<and>
         img_data (msgDepth (extractData_points s hdr d m)) ! i = quiet_NaN \<and>
         img_data (msgNoise (extractData_points s hdr d m)) ! i = float_zero \<and>
         pc_data (msgCloud (extractData_points s hdr d m)) ! (5 * i) = quiet_NaN \<and>
         pc_data (msgCloud (extractData_points s hdr d m)) ! (5 * i + 1) = quiet_NaN \<and>
         pc_data (msgCloud (extractData_points s hdr d m)) ! (5 * i + 2) = quiet_NaN \<and>
         pc_data (msgCloud (extractData_points s hdr d m)) ! (5 * i + 3) = float_zero \<and>
         pc_data (msgCloud (extractData_points s hdr d m)) ! (5 * i + 4) =
           float_of_uint16 (pt_grayValue (dd_points d ! i)) \<and>
         img_data (msgMono16 (extractData_points s hdr d m)) ! i =
           pt_grayValue (dd_points d ! i)"
proof -
  have inv: "\<not> point_valid (maxNoise s) (dd_points d ! i)"
    using assms(2) by (simp add: point_valid_def)
  note c = extractData_points_cells [OF assms(1), where m = m and s = s and hdr = hdr]
  show ?thesis
    using c(1-7) c(8) [where k = 0] c(8) [where k = 1] c(8) [where k = 2] c(8) [where k = 3]
      c(8) [where k = 4] inv assms(1)
    by (simp add: cloud_value_def)
qed

theorem extractData_invalid_point_witness:
  "(let out = extractData (scenario_env [False, False, True, False, False]) scenario_frame
                fresh_Messages;
        out' = extractData (scenario_env [False, False, True, False, False]) nan_noise_frame
                fresh_Messages
    in img_data (msgDepth out) ! 1 = 0x7FC00000 \<and>
       img_data (msgNoise out) ! 1 = 0 \<and>
       pc_data (msgCloud out) ! 5 = 0x7FC00000 \<and>
       pc_data (msgCloud out) ! 6 = 0x7FC00000 \<and>
       pc_data (msgCloud out) ! 7 = 0x7FC00000 \<and>
       pc_data (msgCloud out) ! 8 = 0 \<and>
       pc_data (msgCloud out) ! 9 = 0x42480000 \<and>
       img_data (msgMono16 out) ! 1 = 50 \<and>
       img_data (msgDepth out') ! 1 = 0x7FC00000 \<and>
       img_data (msgNoise out') ! 1 = 0 \<and>
       pc_data (msgCloud out') ! 5 = 0x7FC00000 \<and>
       pc_data (msgCloud out') ! 6 = 0x7FC00000 \<and>
       pc_data (msgCloud out') ! 7 = 0x7FC00000 \<and>
       pc_data (msgCloud out') ! 8 = 0 \<and>
       pc_data (msgCloud out') ! 9 = 0x42480000 \<and>
       img_data (msgMono16 out') ! 1 = 50)"
proof -
  let ?s = "scenario_env [False, False, True, False, False]"
  have run: "extractData ?s f fresh_Messages =
             extractData_points ?s (make_header ?s f) f fresh_Messages" for f
    by (simp add: extractData_def Let_def scenario_env_def CAMERA_INFO_def MONO_16_def
        DEPTH_def)
  have a: "\<not> (pt_depthConfidence (dd_points scenario_frame ! 1) \<and>
              float_less (pt_noise (dd_points scenario_frame ! 1)) (maxNoise ?s))"
    by (simp add: scenario_env_def scenario_frame_def float_less_def float_isnan_def
        float_key_def)
  have b: "\<not> (pt_depthConfidence (dd_points nan_noise_frame ! 1) \<and>
              float_less (pt_noise (dd_points nan_noise_frame ! 1)) (maxNoise ?s))"
    by (simp add: scenario_env_def nan_noise_frame_def float_less_def float_isnan_def)
  have la: "1 < length (dd_points scenario_frame)" by (simp add: scenario_frame_def)
  have lb: "1 < length (dd_points nan_noise_frame)" by (simp add: nan_noise_frame_def)
  show ?thesis
    unfolding Let_def run
    using extractData_invalid_point [OF la a, of "make_header ?s scenario_frame"
        fresh_Messages]
      extractData_invalid_point [OF lb b, of "make_header ?s nan_noise_frame"
        fresh_Messages]
    by (simp add: scenario_frame_def nan_noise_frame_def quiet_NaN_def float_zero_def
        float_of_uint16_def log2_floor.simps Let_def)
qed

text \<open>
  Claim C2. In the point-level step of \<open>extractData\<close>, every point \<open>i\<close> of the frame with
  \<open>depthConfidence\<close> true and noise strictly below \<open>maxNoise\<close> has its \<open>z\<close> in the depth image,
  its noise in the noise image, and its \<open>x\<close>, \<open>y\<close>, \<open>z\<close> and noise in the cloud record, each
  with the very bits of the input.
\<close>

theorem extractData_valid_point:
  assumes "i < length (dd_points d)"
    and "pt_depthConfidence (dd_points d ! i) \<and>
         float_less (pt_noise (dd_points d ! i)) (maxNoise s)"
  shows "i < length (img_data (msgDepth (extractData_points s hdr d m))) \<and>
         i < length (img_data (msgNoise (extractData_points s hdr d m))) \<and>
         5 * i + 4 < length (pc_data (msgCloud (extractData_points s hdr d m))) \<and>
         img_data (msgDepth (extractData_points s hdr d m)) ! i = pt_z (dd_points d ! i) \<and>
         img_data (msgNoise (extractData_points s hdr d m)) ! i = pt_noise (dd_points d ! i) \<and>
         pc_data (msgCloud (extractData_points s hdr d m)) ! (5 * i) = pt_x (dd_points d ! i) \<and>
         pc_data (msgCloud (extractData_points s hdr d m)) ! (5 * i + 1) =
           pt_y (dd_points d ! i) \<and>
         pc_data (msgCloud (extractData_points s hdr d m)) ! (5 * i + 2) =
           pt_z (dd_points d ! i) \<and>
         pc_data (msgCloud (extractData_points s hdr d m)) ! (5 * i + 3) =
           pt_noise (dd_points d ! i)"
proof -
  have v: "point_valid (maxNoise s) (dd_points d ! i)"
    using assms(2) by (simp add: point_valid_def)
  note c = extractData_points_cells [OF assms(1), where m = m and s = s and hdr = hdr]
  show ?thesis
    using c(1-7) c(8) [where k = 0] c(8) [where k = 1] c(8) [where k = 2] c(8) [where k = 3]
      v assms(1)
    by (simp add: cloud_value_def)
qed

theorem extractData_valid_point_witness:
  "(let out = extractData (scenario_env [False, False, False, False, True]) scenario_frame
                fresh_Messages
    in img_data (msgDepth out) ! 0 = 0x40400000 \<and>
       img_data (msgNoise out) ! 0 = 0x3C23D70A \<and>
       pc_data (msgCloud out) ! 0 = 0x3F800000 \<and>
       pc_data (msgCloud out) ! 1 = 0x40000000 \<and>
       pc_data (msgCloud out) ! 2 = 0x40400000 \<and>
       pc_data (msgCloud out) ! 3 = 0x3C23D70A)"
proof -
  let ?s = "scenario_env [False, False, False, False, True]"
  have run: "extractData ?s scenario_frame fresh_Messages =
             extractData_points ?s (make_header ?s scenario_frame) scenario_frame fresh_Messages"
    by (simp add: extractData_def Let_def scenario_env_def CAMERA_INFO_def MONO_16_def
        DEPTH_def NOISE_def CLOUD_def)
  have p: "dd_points scenario_frame ! 0 =
      \<lparr>pt_x = 0x3F800000, pt_y = 0x40000000, pt_z = 0x40400000, pt_noise = 0x3C23D70A,
       pt_grayValue = 100, pt_depthConfidence = True\<rparr>"
    by (simp add: scenario_frame_def)
  have i: "0 < length (dd_points scenario_frame)"
    by (simp add: scenario_frame_def)
  have v: "pt_depthConfidence (dd_points scenario_frame ! 0) \<and>
           float_less (pt_noise (dd_points scenario_frame ! 0)) (maxNoise ?s)"
    unfolding p by (simp add: scenario_env_def float_less_def float_isnan_def float_key_def)
  have idx: "5 * 0 = (0::nat)" "0 + 1 = (1::nat)" "0 + 2 = (2::nat)" "0 + 3 = (3::nat)"
    by simp_all
  show ?thesis
    using extractData_valid_point [OF i v, of "make_header ?s scenario_frame" fresh_Messages]
    unfolding Let_def run idx p by simp
qed

text \<open>
  Claim C10. When none of Mono16, Depth, Noise and Cloud has a subscriber, \<open>extractData\<close>
  leaves these four messages exactly as they were; the CameraInfo message is filled if
  that channel is subscribed and left alone otherwise.
\<close>

theorem extractData_no_point_subscriber:
  assumes "\<not> status s ! MONO_16" "\<not> status s ! DEPTH" "\<not> status s ! NOISE"
    "\<not> status s ! CLOUD"
  shows "msgMono16 (extractData s d m) = msgMono16 m \<and>
         msgDepth (extractData s d m) = msgDepth m \<and>
         msgNoise (extractData s d m) = msgNoise m \<and>
         msgCloud (extractData s d m) = msgCloud m \<and>
         msgCameraInfo (extractData s d m) =
           (if status s ! CAMERA_INFO
            then (cameraInfo s)\<lparr>ci_header := make_header s d,
                   ci_height := ucast (dd_height d), ci_width := ucast (dd_width d)\<rparr>
            else msgCameraInfo m)"
  using assms by (simp add: extractData_def Let_def)

theorem extractData_no_point_subscriber_witness:
  "(let m = fresh_Messages\<lparr>msgDepth := empty_Image\<lparr>img_data := [0x3F800000]\<rparr>\<rparr>;
        out = extractData (scenario_env [True, False, False, False, False]) scenario_frame m
    in msgMono16 out = empty_Image \<and> img_data (msgDepth out) = [0x3F800000] \<and>
       msgNoise out = empty_Image \<and> msgCloud out = empty_PointCloud2 \<and>
       ci_width (msgCameraInfo out) = 2 \<and> ci_height (msgCameraInfo out) = 1)"
  using extractData_no_point_subscriber [of "scenario_env [True, False, False, False, False]"
      scenario_frame "fresh_Messages\<lparr>msgDepth := empty_Image\<lparr>img_data := [0x3F800000]\<rparr>\<rparr>"]
  by (simp add: scenario_env_def scenario_frame_def fresh_Messages_def CAMERA_INFO_def
      MONO_16_def DEPTH_def NOISE_def CLOUD_def Let_def)

text \<open>
  The end-to-end scenario of the specification: two points, the second too noisy, with
  every channel subscribed and fresh messages.
\<close>

lemma extract_loop_scenario:
  "extract_loop 0x3D8F5C29 (dd_points scenario_frame) 0
     \<lparr>bufCloud = [0, 0, 0, 0, 0, 0, 0, 0, 0, 0], bufDepth = [0, 0], bufNoise = [0, 0],
      bufMono16 = [0, 0]\<rparr> =
   \<lparr>bufCloud = [0x3F800000, 0x40000000, 0x40400000, 0x3C23D70A, 0x42C80000,
                 0x7FC00000, 0x7FC00000, 0x7FC00000, 0, 0x42480000],
    bufDepth = [0x40400000, 0x7FC00000], bufNoise = [0x3C23D70A, 0],
    bufMono16 = [100, 50]\<rparr>"
proof -
  have v0: "float_less 0x3C23D70A 0x3D8F5C29"
    by (simp add: float_less_def float_isnan_def float_key_def)
  have v1: "\<not> float_less 0x3F000000 0x3D8F5C29"
    by (simp add: float_less_def float_isnan_def float_key_def)
  have g0: "float_of_uint16 100 = 0x42C80000"
    by (simp add: float_of_uint16_def log2_floor.simps Let_def)
  have g1: "float_of_uint16 50 = 0x42480000"
    by (simp add: float_of_uint16_def log2_floor.simps Let_def)
  show ?thesis
    by (simp add: scenario_frame_def extract_loop.simps write_point_def Let_def v0 v1 g0 g1
        quiet_NaN_def float_zero_def numeral_eq_Suc)
qed


lemma extractData_scenario:
  "(let out = extractData (scenario_env [True, True, True, True, True]) scenario_frame
                fresh_Messages
    in img_data (msgDepth out) = [0x40400000, 0x7FC00000] \<and>
       img_data (msgNoise out) = [0x3C23D70A, 0] \<and>
       img_data (msgMono16 out) = [100, 50] \<and>
       pc_data (msgCloud out) =
         [0x3F800000, 0x40000000, 0x40400000, 0x3C23D70A, 0x42C80000,
          0x7FC00000, 0x7FC00000, 0x7FC00000, 0, 0x42480000] \<and>
       pc_point_step (msgCloud out) = 20 \<and> pc_row_step (msgCloud out) = 40 \<and>
       \<not> pc_is_dense (msgCloud out))"
proof -
  let ?s = "scenario_env [True, True, True, True, True]"
  have len: "length (dd_points scenario_frame) = 2" by (simp add: scenario_frame_def)
  have r10: "resize_vec 10 0 [] = [0, 0, 0, 0, 0, 0, 0, 0, 0, 0 :: float32]"
    by (simp add: resize_vec_def numeral_eq_Suc)
  have r2: "resize_vec 2 0 [] = [0, 0 :: 'a :: zero]"
    by (simp add: resize_vec_def numeral_eq_Suc)
  have m: "maxNoise ?s = 0x3D8F5C29" by (simp add: scenario_env_def)
  have w: "dd_width scenario_frame = 2" by (simp add: scenario_frame_def)
  have g: "status ?s ! MONO_16" by (simp add: scenario_env_def MONO_16_def)
  show ?thesis
    unfolding Let_def extractData_def extractData_points_def len m
    by (simp add: g fresh_Messages_def empty_Image_def empty_PointCloud2_def r10 r2
        extract_loop_scenario w)
qed
section \<open>Properties of isCurrent and callbackTopicStatus\<close>

text \<open>
  Claim C4. \<open>isCurrent\<close> returns false exactly when \<open>iters_since_data\<close> has reached
  \<open>dropout_allow_iters\<close> and \<open>iters_since_start\<close> has reached \<open>startup_ignore_iters\<close>; this
  holds for all values of the two counters.
\<close>

theorem isCurrent_stalled_iff:
  "(\<not> isCurrent s) =
     (dropout_allow_iters \<le> iters_since_data s \<and> startup_ignore_iters \<le> iters_since_start s)"
  by (auto simp: isCurrent_def)

lemma ex_less_COUNT:
  "(\<exists>i<COUNT. P i) = (P 0 \<or> P 1 \<or> P 2 \<or> P 3 \<or> P 4)"
proof -
  have "{..<COUNT} = {0, 1, 2, 3, 4}" by (auto simp: COUNT_def)
  then have "(\<exists>i\<in>{..<COUNT}. P i) = (\<exists>i\<in>{0, 1, 2, 3, 4}. P i)" by simp
  moreover have "(\<exists>i<COUNT. P i) = (\<exists>i\<in>{..<COUNT}. P i)" by auto
  ultimately show ?thesis by simp
qed

lemma update_status_tail:
  "i \<le> COUNT \<Longrightarrow> length st = COUNT \<Longrightarrow>
   snd (update_status subs i st c) = (c \<or> (\<exists>j<COUNT. i \<le> j \<and> 0 < subs j)) \<and>
   length (fst (update_status subs i st c)) = COUNT \<and>
   (\<forall>j<COUNT. fst (update_status subs i st c) ! j = (if i \<le> j then 0 < subs j else st ! j))"
proof (induction subs i st c rule: update_status.induct)
  case (1 subs i st c)
  show ?case
  proof (cases "i < COUNT")
    case True
    let ?st = "st[i := 0 < subs i]"
    have len: "length ?st = COUNT" using "1.prems" by simp
    have nth: "?st ! i = (0 < subs i)" using True "1.prems" by simp
    have ih: "snd (update_status subs (Suc i) ?st (c \<or> ?st ! i)) =
        ((c \<or> ?st ! i) \<or> (\<exists>j<COUNT. Suc i \<le> j \<and> 0 < subs j)) \<and>
      length (fst (update_status subs (Suc i) ?st (c \<or> ?st ! i))) = COUNT \<and>
      (\<forall>j<COUNT. fst (update_status subs (Suc i) ?st (c \<or> ?st ! i)) ! j =
         (if Suc i \<le> j then 0 < subs j else ?st ! j))"
      using "1.IH" [OF True refl _ len] True by simp
    have unf: "update_status subs i st c = update_status subs (Suc i) ?st (c \<or> ?st ! i)"
      using True by (simp add: update_status.simps [of subs i st c] Let_def)
    have ex: "(\<exists>j<COUNT. i \<le> j \<and> 0 < subs j) =
              (0 < subs i \<or> (\<exists>j<COUNT. Suc i \<le> j \<and> 0 < subs j))"
    proof -
      have "(i \<le> j) = (j = i \<or> Suc i \<le> j)" for j by auto
      then show ?thesis using True by auto
    qed
    have cell: "(if Suc i \<le> j then 0 < subs j else ?st ! j) =
                (if i \<le> j then 0 < subs j else st ! j)" if "j < COUNT" for j
    proof -
      consider "j < i" | "j = i" | "Suc i \<le> j" by linarith
      then show ?thesis using nth by cases simp_all
    qed
    show ?thesis
      unfolding unf using ih by (simp add: nth ex cell)
  next
    case False
    then have "update_status subs i st c = (st, c)"
      by (simp add: update_status.simps [of subs i st c])
    then show ?thesis using False "1.prems" by auto
  qed
qed

lemma update_status_0:
  assumes "length st = COUNT"
  shows "snd (update_status subs 0 st False) = (\<exists>i<COUNT. 0 < subs i)"
  using update_status_tail [of 0 st subs False] assms by simp

lemma update_status_pair:
  assumes "length st = COUNT"
  shows "update_status subs 0 st False =
           (fst (update_status subs 0 st False), \<exists>i<COUNT. 0 < subs i)"
proof -
  have "snd (update_status subs 0 st False) = (\<exists>i<COUNT. 0 < subs i)"
    by (rule update_status_0 [OF assms])
  then show ?thesis by (simp add: prod_eq_iff)
qed

text \<open>
  Claim C5. In \<open>callbackTopicStatus\<close>: if some channel has a subscriber and the device is
  not capturing, exactly one \<open>startCapture\<close> is sent to the device; if no channel has a
  subscriber and the device is capturing, exactly one \<open>stopCapture\<close> is sent; in every other
  case nothing is sent and the device is left as it was.
\<close>

theorem callbackTopicStatus_capture_rule:
  assumes "length (status s) = COUNT"
  shows
    "((\<exists>i<COUNT. 0 < subs i) \<and> \<not> dev_isCapturing cam (cameraDevice s) \<longrightarrow>
        calls (callbackTopicStatus cam subs s) = calls s @ [StartCapture] \<and>
        cameraDevice (callbackTopicStatus cam subs s) =
          snd (dev_startCapture cam (cameraDevice s))) \<and>
     ((\<forall>i<COUNT. subs i = 0) \<and> dev_isCapturing cam (cameraDevice s) \<longrightarrow>
        calls (callbackTopicStatus cam subs s) = calls s @ [StopCapture] \<and>
        cameraDevice (callbackTopicStatus cam subs s) =
          snd (dev_stopCapture cam (cameraDevice s))) \<and>
     (\<not> ((\<exists>i<COUNT. 0 < subs i) \<and> \<not> dev_isCapturing cam (cameraDevice s)) \<and>
      \<not> ((\<forall>i<COUNT. subs i = 0) \<and> dev_isCapturing cam (cameraDevice s)) \<longrightarrow>
        calls (callbackTopicStatus cam subs s) = calls s \<and>
        cameraDevice (callbackTopicStatus cam subs s) = cameraDevice s)"
proof -
  have none: "(\<forall>i<COUNT. subs i = 0) = (\<not> (\<exists>i<COUNT. 0 < subs i))" by auto
  define st where "st = fst (update_status subs 0 (status s) False)"
  have us: "update_status subs 0 (status s) False = (st, \<exists>i<COUNT. 0 < subs i)"
    unfolding st_def by (rule update_status_pair [OF assms])
  show ?thesis
    unfolding none callbackTopicStatus_def us
    by (simp add: Let_def st_def [symmetric] split: prod.splits)
qed

text \<open>
  Claim C9. When the \<open>startCapture\<close> or \<open>stopCapture\<close> sent by \<open>callbackTopicStatus\<close>
  does not return \<open>SUCCESS\<close>, the resulting driver state is the one after that single
  request with \<open>running\<close> false and shutdown requested: the request is sent once, and
  nothing else is done.
\<close>

theorem callbackTopicStatus_capture_failure:
  assumes "length (status s) = COUNT"
  shows
    "((\<exists>i<COUNT. 0 < subs i) \<and> \<not> dev_isCapturing cam (cameraDevice s) \<and>
      fst (dev_startCapture cam (cameraDevice s)) \<noteq> SUCCESS \<longrightarrow>
        callbackTopicStatus cam subs s =
          s\<lparr>status := fst (update_status subs 0 (status s) False),
            cameraDevice := snd (dev_startCapture cam (cameraDevice s)),
            calls := calls s @ [StartCapture],
            running := False, frame := 0, processTime := 0, delayReceived := 0,
            shutdown_requested := True\<rparr>) \<and>
     ((\<forall>i<COUNT. subs i = 0) \<and> dev_isCapturing cam (cameraDevice s) \<and>
      fst (dev_stopCapture cam (cameraDevice s)) \<noteq> SUCCESS \<longrightarrow>
        callbackTopicStatus cam subs s =
          s\<lparr>status := fst (update_status subs 0 (status s) False),
            cameraDevice := snd (dev_stopCapture cam (cameraDevice s)),
            calls := calls s @ [StopCapture],
            running := False, shutdown_requested := True\<rparr>)"
proof -
  have none: "(\<forall>i<COUNT. subs i = 0) = (\<not> (\<exists>i<COUNT. 0 < subs i))" by auto
  define st where "st = fst (update_status subs 0 (status s) False)"
  have us: "update_status subs 0 (status s) False = (st, \<exists>i<COUNT. 0 < subs i)"
    unfolding st_def by (rule update_status_pair [OF assms])
  show ?thesis
    unfolding none callbackTopicStatus_def us
    by (simp add: Let_def st_def [symmetric] split: prod.splits)
qed

theorem isCurrent_stalled_iff_witness:
  "\<not> isCurrent ((started_driver ''MODE_9_5FPS_2000'' 1000)
       \<lparr>iters_since_start := 16, iters_since_data := 5\<rparr>) \<and>
   isCurrent ((started_driver ''MODE_9_5FPS_2000'' 1000)
       \<lparr>iters_since_start := 3, iters_since_data := 5\<rparr>) \<and>
   isCurrent ((started_driver ''MODE_9_5FPS_2000'' 1000)
       \<lparr>iters_since_start := 16, iters_since_data := 4\<rparr>)"
  using isCurrent_stalled_iff [of "(started_driver ''MODE_9_5FPS_2000'' 1000)
          \<lparr>iters_since_start := 16, iters_since_data := 5\<rparr>"]
    isCurrent_stalled_iff [of "(started_driver ''MODE_9_5FPS_2000'' 1000)
          \<lparr>iters_since_start := 3, iters_since_data := 5\<rparr>"]
    isCurrent_stalled_iff [of "(started_driver ''MODE_9_5FPS_2000'' 1000)
          \<lparr>iters_since_start := 16, iters_since_data := 4\<rparr>"]
  by (simp add: dropout_allow_iters_def startup_ignore_iters_def)

lemma started_driver_fields:
  "length (status (started_driver uc et)) = COUNT"
  "calls (started_driver uc et) = []"
  "sim_capturing (cameraDevice (started_driver uc et)) = False"
  "running (started_driver uc et) = True"
  "shutdown_requested (started_driver uc et) = False"
  by (simp_all add: started_driver_def)

lemma sim_camera_fields:
  "dev_isCapturing (sim_camera a b) = sim_capturing"
  "dev_startCapture (sim_camera a b) d =
     (a, if a = SUCCESS then d\<lparr>sim_capturing := True\<rparr> else d)"
  "dev_stopCapture (sim_camera a b) d =
     (b, if b = SUCCESS then d\<lparr>sim_capturing := False\<rparr> else d)"
  by (simp_all add: sim_camera_def)

lemma callbackTopicStatus_status:
  "status (callbackTopicStatus cam subs s) = fst (update_status subs 0 (status s) False)"
  by (simp add: callbackTopicStatus_def Let_def split: prod.splits)

lemma callbackTopicStatus_length:
  assumes "length (status s) = COUNT"
  shows "length (status (callbackTopicStatus cam subs s)) = COUNT"
  unfolding callbackTopicStatus_status
  using update_status_tail [of 0 "status s" subs False] assms by simp

theorem callbackTopicStatus_capture_rule_witness:
  "(let s = started_driver ''MODE_9_5FPS_2000'' 1000;
        cam = sim_camera SUCCESS SUCCESS;
        s1 = callbackTopicStatus cam (\<lambda>i. if i = DEPTH then 1 else 0) s;
        s2 = callbackTopicStatus cam (\<lambda>i. if i = DEPTH then 2 else 0) s1;
        s3 = callbackTopicStatus cam (\<lambda>i. 0) s1
    in calls s1 = [StartCapture] \<and> sim_capturing (cameraDevice s1) \<and>
       calls s2 = [StartCapture] \<and> sim_capturing (cameraDevice s2) \<and>
       calls s3 = [StartCapture, StopCapture] \<and> \<not> sim_capturing (cameraDevice s3))"
proof -
  let ?s = "started_driver ''MODE_9_5FPS_2000'' 1000"
  let ?cam = "sim_camera SUCCESS SUCCESS"
  let ?s1 = "callbackTopicStatus ?cam (\<lambda>i. if i = DEPTH then 1 else 0) ?s"
  have some: "\<exists>i<COUNT. 0 < (if i = DEPTH then n else 0)" if "0 < n" for n :: nat
    using that by (intro exI [of _ DEPTH]) (simp add: DEPTH_def COUNT_def)
  have l0: "length (status ?s) = COUNT" by (rule started_driver_fields)
  have r1: "calls ?s1 = [StartCapture] \<and> sim_capturing (cameraDevice ?s1)"
    using callbackTopicStatus_capture_rule [OF l0, of "\<lambda>i. if i = DEPTH then 1 else 0" ?cam]
      some [of 1]
    by (simp add: started_driver_fields sim_camera_fields)
  have l1: "length (status ?s1) = COUNT"
    by (rule callbackTopicStatus_length [OF l0])
  have r2: "calls (callbackTopicStatus ?cam (\<lambda>i. if i = DEPTH then 2 else 0) ?s1) =
              [StartCapture] \<and>
            sim_capturing (cameraDevice
              (callbackTopicStatus ?cam (\<lambda>i. if i = DEPTH then 2 else 0) ?s1))"
    using callbackTopicStatus_capture_rule [OF l1, of "\<lambda>i. if i = DEPTH then 2 else 0" ?cam]
      some [of 2] r1
    by (simp add: sim_camera_fields)
  have r3: "calls (callbackTopicStatus ?cam (\<lambda>i. 0) ?s1) = [StartCapture, StopCapture] \<and>
            \<not> sim_capturing (cameraDevice (callbackTopicStatus ?cam (\<lambda>i. 0) ?s1))"
    using callbackTopicStatus_capture_rule [OF l1, of "\<lambda>i. 0" ?cam] r1
    by (simp add: sim_camera_fields)
  show ?thesis using r1 r2 r3 by (simp add: Let_def)
qed

theorem callbackTopicStatus_capture_failure_witness:
  "(let s = started_driver ''MODE_9_5FPS_2000'' 1000;
        s1 = callbackTopicStatus (sim_camera (FAILED 1) SUCCESS)
               (\<lambda>i. if i = DEPTH then 1 else 0) s;
        c = (s\<lparr>cameraDevice := (cameraDevice s)\<lparr>sim_capturing := True\<rparr>\<rparr>);
        s2 = callbackTopicStatus (sim_camera SUCCESS (FAILED 1)) (\<lambda>i. 0) c
    in \<not> running s1 \<and> shutdown_requested s1 \<and> calls s1 = [StartCapture] \<and>
       \<not> running s2 \<and> shutdown_requested s2 \<and> calls s2 = [StopCapture])"
proof -
  let ?s = "started_driver ''MODE_9_5FPS_2000'' 1000"
  let ?c = "?s\<lparr>cameraDevice := (cameraDevice ?s)\<lparr>sim_capturing := True\<rparr>\<rparr>"
  have some: "\<exists>i<COUNT. 0 < (if i = DEPTH then 1 else (0::nat))"
    by (intro exI [of _ DEPTH]) (simp add: DEPTH_def COUNT_def)
  have l0: "length (status ?s) = COUNT" by (rule started_driver_fields)
  have lc: "length (status ?c) = COUNT" by (simp add: started_driver_fields)
  have r1: "callbackTopicStatus (sim_camera (FAILED 1) SUCCESS)
              (\<lambda>i. if i = DEPTH then 1 else 0) ?s =
            ?s\<lparr>status := fst (update_status (\<lambda>i. if i = DEPTH then 1 else 0) 0 (status ?s) False),
               cameraDevice := cameraDevice ?s, calls := [StartCapture],
               running := False, frame := 0, processTime := 0, delayReceived := 0,
               shutdown_requested := True\<rparr>"
    using callbackTopicStatus_capture_failure [OF l0, of "\<lambda>i. if i = DEPTH then 1 else 0"
        "sim_camera (FAILED 1) SUCCESS"] some
    by (simp add: started_driver_fields sim_camera_fields)
  have r2: "callbackTopicStatus (sim_camera SUCCESS (FAILED 1)) (\<lambda>i. 0) ?c =
            ?c\<lparr>status := fst (update_status (\<lambda>i. 0) 0 (status ?c) False),
               cameraDevice := cameraDevice ?c, calls := [StopCapture],
               running := False, shutdown_requested := True\<rparr>"
    using callbackTopicStatus_capture_failure [OF lc, of "\<lambda>i. 0"
        "sim_camera SUCCESS (FAILED 1)"]
    by (simp add: started_driver_fields sim_camera_fields)
  show ?thesis unfolding Let_def r1 r2 by simp
qed

section \<open>Properties of the frame exchange and the processing loop\<close>

lemma onNewData_fields:
  "data (onNewData now d s) = Some d"
  "newData (onNewData now d s) = True"
  "iters_since_data (onNewData now d s) = iters_since_data s"
  "iters_since_start (onNewData now d s) = iters_since_start s"
  "running (onNewData now d s) = running s"
  "shutdown_requested (onNewData now d s) = shutdown_requested s"
  by (simp_all add: onNewData_def Let_def)

lemma same_core_refl: "same_core s s"
  by (simp add: same_core_def)

lemma same_core_trans: "same_core s s1 \<Longrightarrow> same_core s1 s2 \<Longrightarrow> same_core s s2"
  by (simp add: same_core_def)

lemma callbackTopicStatus_core: "same_core s (callbackTopicStatus cam subs s)"
  by (simp add: callbackTopicStatus_def same_core_def Let_def split: prod.splits)

lemma setUseCase_core: "same_core s (snd (setUseCase cam uc s))"
  by (simp add: setUseCase_def same_core_def Let_def split: prod.splits)

lemma setExposureMode_core: "same_core s (snd (setExposureMode cam a s))"
  by (simp add: setExposureMode_def same_core_def Let_def split: prod.splits)

lemma setExposure_core: "same_core s (snd (setExposure cam e s))"
  by (simp add: setExposure_def same_core_def Let_def split: prod.splits)

lemma callbackConfig_use_case_core:
  "case callbackConfig_use_case cam cfg level s of
     Inl (c, s') \<Rightarrow> same_core s s' | Inr s' \<Rightarrow> same_core s s'"
  using setUseCase_core [of s cam "use_case cfg"]
  by (auto simp: callbackConfig_use_case_def same_core_def split: prod.splits)

lemma callbackConfig_exposure_mode_core:
  "case callbackConfig_exposure_mode cam cfg level s of
     Inl (c, s') \<Rightarrow> same_core s s' | Inr s' \<Rightarrow> same_core s s'"
  using setExposureMode_core [of s cam "exposure_mode cfg = 0"]
  by (auto simp: callbackConfig_exposure_mode_def same_core_def split: prod.splits)

lemma callbackConfig_exposure_time_core:
  "case callbackConfig_exposure_time cam cfg level s of
     Inl (c, s') \<Rightarrow> same_core s s' | Inr s' \<Rightarrow> same_core s s'"
  using setExposure_core [of s cam "exposure_time cfg"]
  by (auto simp: callbackConfig_exposure_time_def same_core_def split: prod.splits)

lemma callbackConfig_tail_core:
  "same_core s (callbackConfig_limits cam level
      (callbackConfig_range_factor conv cfg level (callbackConfig_max_noise conv cfg level s)))"
  by (simp add: callbackConfig_limits_def callbackConfig_range_factor_def
      callbackConfig_max_noise_def same_core_def Let_def)

lemma callbackConfig_core: "same_core s (snd (callbackConfig cam conv cfg level s))"
proof (cases "level = 0xFFFFFFFF")
  case True
  then show ?thesis by (simp add: callbackConfig_def same_core_refl)
next
  case False
  show ?thesis
  proof (cases "callbackConfig_use_case cam cfg level s")
    case (Inl r)
    then show ?thesis
      using callbackConfig_use_case_core [where s = s and cam = cam and cfg = cfg and level = level] False
      by (simp add: callbackConfig_def split: prod.splits)
  next
    case s1: (Inr s1)
    then have c1: "same_core s s1"
      using callbackConfig_use_case_core [where s = s and cam = cam and cfg = cfg and level = level] by simp
    show ?thesis
    proof (cases "callbackConfig_exposure_mode cam cfg level s1")
      case (Inl r)
      then have "same_core s1 (snd r)"
        using callbackConfig_exposure_mode_core [where s = s1 and cam = cam and cfg = cfg and level = level]
        by (simp split: prod.splits)
      then show ?thesis
        using False s1 Inl same_core_trans [OF c1] by (simp add: callbackConfig_def)
    next
      case s2: (Inr s2)
      then have c2: "same_core s s2"
        using callbackConfig_exposure_mode_core [where s = s1 and cam = cam and cfg = cfg and level = level] same_core_trans [OF c1]
        by simp
      show ?thesis
      proof (cases "callbackConfig_exposure_time cam cfg level s2")
        case (Inl r)
        then have "same_core s2 (snd r)"
          using callbackConfig_exposure_time_core [where s = s2 and cam = cam and cfg = cfg and level = level]
          by (simp split: prod.splits)
        then show ?thesis
          using False s1 s2 Inl same_core_trans [OF c2] by (simp add: callbackConfig_def)
      next
        case s3: (Inr s3)
        then have c3: "same_core s s3"
          using callbackConfig_exposure_time_core [where s = s2 and cam = cam and cfg = cfg and level = level] same_core_trans [OF c2]
          by simp
        show ?thesis
          using False s1 s2 s3 same_core_trans [OF c3 callbackConfig_tail_core]
          by (simp add: callbackConfig_def)
      qed
    qed
  qed
qed

lemma process_wait_timeout:
  "\<not> newData s \<Longrightarrow>
   process_wait s l =
     (False,
      s\<lparr>iters_since_start :=
           (if iters_since_start s \<le> startup_ignore_iters then iters_since_start s + 1
            else iters_since_start s),
        iters_since_data := iters_since_data s + 1\<rparr>, l)"
  by (simp add: process_wait_def Let_def)

lemma process_wait_take:
  "newData s \<Longrightarrow>
   process_wait s l =
     (True,
      s\<lparr>data := local_data l, newData := False,
        iters_since_start :=
           (if iters_since_start s \<le> startup_ignore_iters then iters_since_start s + 1
            else iters_since_start s),
        iters_since_data := 0\<rparr>,
      l\<lparr>local_data := data s\<rparr>)"
  by (simp add: process_wait_def Let_def)

lemma timings_fields:
  "iters_since_data (timings now s) = iters_since_data s"
  "iters_since_start (timings now s) = iters_since_start s"
  "data (timings now s) = data s"
  "newData (timings now s) = newData s"
  "running (timings now s) = running s"
  "shutdown_requested (timings now s) = shutdown_requested s"
  by (simp_all add: timings_def Let_def)

lemma process_frame_Some:
  "local_data l = Some d \<Longrightarrow>
   process_frame ts te tn s l =
     Some (timings tn (s\<lparr>processTime := processTime s + word_of_int (te - ts)\<rparr>),
           l\<lparr>msgs := snd (publish s (extractData s d (msgs l)))\<rparr>,
           d, fst (publish s (extractData s d (msgs l))))"
  by (simp add: process_frame_def Let_def split: prod.splits)

lemma step_take:
  assumes "newData (drv sys)" "data (drv sys) = Some d" "running (drv sys)"
    "\<not> shutdown_requested (drv sys)"
  shows "\<exists>sys'. step cam conv (ProcessIter a b c) sys = Some sys' \<and>
     processed sys' = d # processed sys \<and> local_data (thread sys') = Some d \<and>
     \<not> newData (drv sys') \<and> iters_since_data (drv sys') = 0 \<and>
     iters_since_start (drv sys') =
       (if iters_since_start (drv sys) \<le> startup_ignore_iters
        then iters_since_start (drv sys) + 1 else iters_since_start (drv sys))"
  using assms
  by (simp add: step_def process_iteration_def process_wait_take process_frame_Some
      timings_fields)

lemma step_timeout:
  assumes "\<not> newData (drv sys)" "running (drv sys)" "\<not> shutdown_requested (drv sys)"
  shows "step cam conv (ProcessIter a b c) sys =
     Some (sys\<lparr>drv := (drv sys)\<lparr>iters_since_start :=
                  (if iters_since_start (drv sys) \<le> startup_ignore_iters
                   then iters_since_start (drv sys) + 1 else iters_since_start (drv sys)),
                iters_since_data := iters_since_data (drv sys) + 1\<rparr>\<rparr>)"
  using assms by (simp add: step_def process_iteration_def process_wait_timeout)

lemma step_slot:
  assumes "slot_ok (drv sys)"
  shows "\<exists>sys' new. step cam conv ev sys = Some sys' \<and> slot_ok (drv sys') \<and>
     processed sys' = new @ processed sys \<and>
     subseq (rev new @ pending (drv sys')) (pending (drv sys) @ deposits [ev]) \<and>
     (iters_since_start (drv sys) \<le> startup_ignore_iters + 1 \<longrightarrow>
      iters_since_start (drv sys') \<le> startup_ignore_iters + 1)"
proof (cases ev)
  case (NewData now d)
  then show ?thesis
    by (simp add: step_def slot_ok_def pending_def onNewData_fields)
next
  case (ProcessIter a b c)
  show ?thesis
  proof (cases "running (drv sys) \<and> \<not> shutdown_requested (drv sys)")
    case False
    then show ?thesis using assms ProcessIter by (auto simp: step_def)
  next
    case run: True
    show ?thesis
    proof (cases "newData (drv sys)")
      case False
      then show ?thesis
        using run ProcessIter step_timeout [of sys cam conv a b c]
        by (simp add: slot_ok_def pending_def startup_ignore_iters_def)
    next
      case True
      then obtain d where d: "data (drv sys) = Some d"
        using assms by (auto simp: slot_ok_def)
      from step_take [OF True d, of cam conv a b c] run obtain sys' where
        "step cam conv (ProcessIter a b c) sys = Some sys'"
        "processed sys' = d # processed sys" "\<not> newData (drv sys')"
        "iters_since_start (drv sys') =
           (if iters_since_start (drv sys) \<le> startup_ignore_iters
            then iters_since_start (drv sys) + 1 else iters_since_start (drv sys))"
        by blast
      then show ?thesis
        using True d ProcessIter
        by (auto simp: slot_ok_def pending_def startup_ignore_iters_def)
    qed
  qed
next
  case (TopicStatus subs)
  then show ?thesis
    using assms callbackTopicStatus_core [of "drv sys" cam subs]
    by (simp add: step_def slot_ok_def pending_def same_core_def)
next
  case (Config cfg level)
  then show ?thesis
    using assms callbackConfig_core [of "drv sys" cam conv cfg level]
    by (simp add: step_def slot_ok_def pending_def same_core_def)
qed

lemma deposits_Cons: "deposits (ev # evs) = deposits [ev] @ deposits evs"
  by (cases ev) simp_all

lemma run_slot:
  assumes "slot_ok (drv sys)"
  shows "\<exists>sys' new. run cam conv evs sys = Some sys' \<and> slot_ok (drv sys') \<and>
     processed sys' = new @ processed sys \<and>
     subseq (rev new) (pending (drv sys) @ deposits evs) \<and>
     (iters_since_start (drv sys) \<le> startup_ignore_iters + 1 \<longrightarrow>
      iters_since_start (drv sys') \<le> startup_ignore_iters + 1)"
  using assms
proof (induction evs arbitrary: sys)
  case Nil
  then show ?case by simp
next
  case (Cons ev evs)
  from step_slot [OF Cons.prems, of cam conv ev] obtain sys1 new1 where
    s1: "step cam conv ev sys = Some sys1" and ok1: "slot_ok (drv sys1)"
    and p1: "processed sys1 = new1 @ processed sys"
    and q1: "subseq (rev new1 @ pending (drv sys1)) (pending (drv sys) @ deposits [ev])"
    and i1: "iters_since_start (drv sys) \<le> startup_ignore_iters + 1 \<longrightarrow>
      iters_since_start (drv sys1) \<le> startup_ignore_iters + 1"
    by blast
  from Cons.IH [OF ok1] obtain sys2 new2 where
    s2: "run cam conv evs sys1 = Some sys2" and ok2: "slot_ok (drv sys2)"
    and p2: "processed sys2 = new2 @ processed sys1"
    and q2: "subseq (rev new2) (pending (drv sys1) @ deposits evs)"
    and i2: "iters_since_start (drv sys1) \<le> startup_ignore_iters + 1 \<longrightarrow>
      iters_since_start (drv sys2) \<le> startup_ignore_iters + 1"
    by blast
  have "subseq (rev new1 @ rev new2) (rev new1 @ pending (drv sys1) @ deposits evs)"
    using q2 by (simp add: subseq_append')
  moreover have "subseq ((rev new1 @ pending (drv sys1)) @ deposits evs)
                   ((pending (drv sys) @ deposits [ev]) @ deposits evs)"
    by (rule list_emb_append_mono [OF q1]) simp
  ultimately have "subseq (rev new1 @ rev new2)
                     (pending (drv sys) @ deposits [ev] @ deposits evs)"
    using subseq_order.trans by fastforce
  then have "subseq (rev (new2 @ new1)) (pending (drv sys) @ deposits (ev # evs))"
    using deposits_Cons [of ev evs] by simp
  moreover have "run cam conv (ev # evs) sys = Some sys2" using s1 s2 by simp
  moreover have "processed sys2 = (new2 @ new1) @ processed sys" using p1 p2 by simp
  ultimately show ?case using ok2 i1 i2 by blast
qed

text \<open>
  Claim C3. The exchange slot keeps the latest frame only. After \<open>A\<close> and then \<open>B\<close> have been
  deposited with no take in between, the next iteration of a running processing loop
  takes exactly \<open>B\<close>. However the run goes on, it never fails, and the frames processed
  from then on are, in order and each at most once, frames among \<open>B\<close> and the later
  deposits: \<open>A\<close> is never processed (unless it is \<open>B\<close> or is deposited again).
\<close>

theorem frame_slot_latest_wins:
  "(running (drv sys) \<and> \<not> shutdown_requested (drv sys) \<longrightarrow>
      (\<exists>sys1. run cam conv [NewData tA A, NewData tB B, ProcessIter a b c] sys = Some sys1 \<and>
         processed sys1 = B # processed sys \<and> local_data (thread sys1) = Some B \<and>
         \<not> newData (drv sys1))) \<and>
   (\<exists>sys2 new. run cam conv (NewData tA A # NewData tB B # evs) sys = Some sys2 \<and>
      processed sys2 = new @ processed sys \<and> subseq (rev new) (B # deposits evs) \<and>
      (A \<noteq> B \<and> A \<notin> set (deposits evs) \<longrightarrow> A \<notin> set new))"
proof (intro conjI impI)
  let ?sys = "sys\<lparr>drv := onNewData tB B (onNewData tA A (drv sys))\<rparr>"
  have two: "run cam conv (NewData tA A # NewData tB B # es) sys = run cam conv es ?sys" for es
    by (simp add: step_def)
  {
    assume r: "running (drv sys) \<and> \<not> shutdown_requested (drv sys)"
    have "newData (drv ?sys)" "data (drv ?sys) = Some B" "running (drv ?sys)"
      "\<not> shutdown_requested (drv ?sys)"
      using r by (simp_all add: onNewData_fields)
    from step_take [OF this, of cam conv a b c] obtain sys1 where
      "step cam conv (ProcessIter a b c) ?sys = Some sys1"
      "processed sys1 = B # processed sys" "local_data (thread sys1) = Some B"
      "\<not> newData (drv sys1)"
      by auto
    then show "\<exists>sys1. run cam conv [NewData tA A, NewData tB B, ProcessIter a b c] sys =
                 Some sys1 \<and>
         processed sys1 = B # processed sys \<and> local_data (thread sys1) = Some B \<and>
         \<not> newData (drv sys1)"
      unfolding two by simp
  }
  have ok: "slot_ok (drv ?sys)" by (simp add: slot_ok_def onNewData_fields)
  have pe: "pending (drv ?sys) = [B]" by (simp add: pending_def onNewData_fields)
  from run_slot [OF ok, of cam conv evs] obtain sys2 new where
    r2: "run cam conv evs ?sys = Some sys2" and p2: "processed sys2 = new @ processed sys"
    and q2: "subseq (rev new) (B # deposits evs)"
    unfolding pe by auto
  have "A \<notin> set new" if "A \<noteq> B \<and> A \<notin> set (deposits evs)"
  proof
    assume "A \<in> set new"
    then have "A \<in> set (rev new)" by simp
    then obtain y where "y \<in> set (B # deposits evs)" "A = y"
      by (rule list_emb_set [OF q2])
    then have "A \<in> set (B # deposits evs)" by simp
    with that show False by simp
  qed
  then show "\<exists>sys2 new. run cam conv (NewData tA A # NewData tB B # evs) sys = Some sys2 \<and>
      processed sys2 = new @ processed sys \<and> subseq (rev new) (B # deposits evs) \<and>
      (A \<noteq> B \<and> A \<notin> set (deposits evs) \<longrightarrow> A \<notin> set new)"
    unfolding two using r2 p2 q2 by blast
qed

theorem frame_slot_latest_wins_witness:
  "map_option processed
     (run (sim_camera SUCCESS SUCCESS) sim_conv
        [NewData 5 frame_A, NewData 6 frame_B, ProcessIter 7 8 9] started_system) =
   Some [frame_B] \<and> frame_A \<noteq> frame_B"
proof -
  have r: "running (drv started_system) \<and> \<not> shutdown_requested (drv started_system)"
    by (simp add: started_system_def started_driver_def)
  have e: "processed started_system = []" by (simp add: started_system_def)
  have ne: "frame_A \<noteq> frame_B"
  proof
    assume "frame_A = frame_B"
    then have "dd_timeStamp frame_A = dd_timeStamp frame_B" by simp
    then show False by (simp add: frame_A_def frame_B_def)
  qed
  from frame_slot_latest_wins [of started_system "sim_camera SUCCESS SUCCESS" sim_conv
      5 frame_A 6 frame_B 7 8 9 "[]"] r
  obtain sys1 where
    "run (sim_camera SUCCESS SUCCESS) sim_conv
       [NewData 5 frame_A, NewData 6 frame_B, ProcessIter 7 8 9] started_system = Some sys1"
    "processed sys1 = frame_B # processed started_system"
    by blast
  then show ?thesis using e ne by simp
qed

text \<open>
  Claim C8. An iteration of the processing loop whose wait ends without new data adds
  exactly one to \<open>iters_since_data\<close> and processes nothing: no frame is extracted or
  published, and the thread's messages and the timing state stay as they are. An iteration
  that takes a frame has \<open>iters_since_data\<close> at zero when the take is done, the frame is
  extracted and published in that state, and the counter is still zero afterwards.
\<close>

theorem process_iteration_counter:
  "(\<not> newData s \<longrightarrow>
      process_iteration ts te tn s l =
        Some (s\<lparr>iters_since_start :=
                  (if iters_since_start s \<le> startup_ignore_iters then iters_since_start s + 1
                   else iters_since_start s),
                iters_since_data := iters_since_data s + 1\<rparr>, l, None)) \<and>
   (newData s \<longrightarrow>
      (case process_wait s l of
         (got, s1, l1) \<Rightarrow>
           got \<and> iters_since_data s1 = 0 \<and> local_data l1 = data s \<and>
           (\<forall>d. data s = Some d \<longrightarrow>
              (\<exists>s2 l2 out.
                 process_frame ts te tn s1 l1 = Some (s2, l2, d, out) \<and>
                 out = fst (publish s1 (extractData s1 d (msgs l1))) \<and>
                 process_iteration ts te tn s l = Some (s2, l2, Some (d, out)) \<and>
                 iters_since_data s2 = 0))))"
proof (intro conjI impI)
  assume "\<not> newData s"
  then show "process_iteration ts te tn s l =
        Some (s\<lparr>iters_since_start :=
                  (if iters_since_start s \<le> startup_ignore_iters then iters_since_start s + 1
                   else iters_since_start s),
                iters_since_data := iters_since_data s + 1\<rparr>, l, None)"
    by (simp add: process_iteration_def process_wait_timeout)
next
  assume nd: "newData s"
  show "case process_wait s l of
         (got, s1, l1) \<Rightarrow>
           got \<and> iters_since_data s1 = 0 \<and> local_data l1 = data s \<and>
           (\<forall>d. data s = Some d \<longrightarrow>
              (\<exists>s2 l2 out.
                 process_frame ts te tn s1 l1 = Some (s2, l2, d, out) \<and>
                 out = fst (publish s1 (extractData s1 d (msgs l1))) \<and>
                 process_iteration ts te tn s l = Some (s2, l2, Some (d, out)) \<and>
                 iters_since_data s2 = 0))"
    unfolding process_wait_take [OF nd]
    by (simp add: process_iteration_def process_wait_take [OF nd] process_frame_Some
        timings_fields)
qed

theorem process_iteration_counter_witness:
  "(let s = (started_driver ''MODE_9_5FPS_2000'' 1000)\<lparr>iters_since_data := 3\<rparr>;
        l = \<lparr>local_data = None, msgs = fresh_Messages\<rparr>
    in map_option (\<lambda>(s', l', r). (iters_since_data s', r)) (process_iteration 0 1 2 s l) =
         Some (4, None) \<and>
       map_option (\<lambda>(s', l', r). (iters_since_data s', map_option fst r))
         (process_iteration 0 1 2 (onNewData 0 frame_A s) l) = Some (0, Some frame_A))"
proof -
  let ?s = "(started_driver ''MODE_9_5FPS_2000'' 1000)\<lparr>iters_since_data := 3\<rparr>"
  let ?l = "\<lparr>local_data = None, msgs = fresh_Messages\<rparr>"
  have n: "\<not> newData ?s" by (simp add: started_driver_def)
  have a: "map_option (\<lambda>(s', l', r). (iters_since_data s', r)) (process_iteration 0 1 2 ?s ?l) =
         Some (4, None)"
    using process_iteration_counter [of ?s 0 1 2 ?l] n by simp
  have b: "map_option (\<lambda>(s', l', r). (iters_since_data s', map_option fst r))
         (process_iteration 0 1 2 (onNewData 0 frame_A ?s) ?l) = Some (0, Some frame_A)"
    using process_iteration_counter [of "onNewData 0 frame_A ?s" 0 1 2 ?l]
    by (auto simp: onNewData_fields split: prod.splits)
  show ?thesis using a b by (simp add: Let_def)
qed

lemma run_timeouts:
  assumes "\<not> newData (drv sys)" "running (drv sys)" "\<not> shutdown_requested (drv sys)"
  shows "\<exists>sys'. run cam conv (replicate n (ProcessIter a b c)) sys = Some sys' \<and>
     \<not> newData (drv sys') \<and> running (drv sys') \<and> \<not> shutdown_requested (drv sys') \<and>
     iters_since_data (drv sys') = iters_since_data (drv sys) + int n \<and>
     iters_since_start (drv sys') =
       (if startup_ignore_iters < iters_since_start (drv sys) then iters_since_start (drv sys)
        else min (startup_ignore_iters + 1) (iters_since_start (drv sys) + int n))"
  using assms
proof (induction n arbitrary: sys)
  case 0
  then show ?case by simp
next
  case (Suc n)
  let ?sys1 = "sys\<lparr>drv := (drv sys)\<lparr>iters_since_start :=
                  (if iters_since_start (drv sys) \<le> startup_ignore_iters
                   then iters_since_start (drv sys) + 1 else iters_since_start (drv sys)),
                iters_since_data := iters_since_data (drv sys) + 1\<rparr>\<rparr>"
  have st: "step cam conv (ProcessIter a b c) sys = Some ?sys1"
    by (rule step_timeout [OF Suc.prems])
  have p: "\<not> newData (drv ?sys1)" "running (drv ?sys1)" "\<not> shutdown_requested (drv ?sys1)"
    using Suc.prems by simp_all
  from Suc.IH [OF p] obtain sys' where
    r: "run cam conv (replicate n (ProcessIter a b c)) ?sys1 = Some sys'"
    and f: "\<not> newData (drv sys')" "running (drv sys')" "\<not> shutdown_requested (drv sys')"
    and d: "iters_since_data (drv sys') = iters_since_data (drv ?sys1) + int n"
    and i: "iters_since_start (drv sys') =
       (if startup_ignore_iters < iters_since_start (drv ?sys1)
        then iters_since_start (drv ?sys1)
        else min (startup_ignore_iters + 1) (iters_since_start (drv ?sys1) + int n))"
    by blast
  have "run cam conv (replicate (Suc n) (ProcessIter a b c)) sys = Some sys'"
    using st r by simp
  moreover have "iters_since_data (drv sys') = iters_since_data (drv sys) + int (Suc n)"
    using d by simp
  moreover have "iters_since_start (drv sys') =
       (if startup_ignore_iters < iters_since_start (drv sys) then iters_since_start (drv sys)
        else min (startup_ignore_iters + 1) (iters_since_start (drv sys) + int (Suc n)))"
    using i by (simp add: startup_ignore_iters_def min_def)
  ultimately show ?case using f by blast
qed

text \<open>Whatever happens after start-up, the start-up counter stays at or below 16.\<close>

lemma run_started_bound:
  "\<exists>sys'. run (sim_camera a b) conv evs started_system = Some sys' \<and>
          iters_since_start (drv sys') \<le> startup_ignore_iters + 1"
proof -
  have ok: "slot_ok (drv started_system)"
    by (simp add: slot_ok_def started_system_def started_driver_def)
  have z: "iters_since_start (drv started_system) \<le> startup_ignore_iters + 1"
    by (simp add: started_system_def started_driver_def startup_ignore_iters_def)
  from run_slot [OF ok, of "sim_camera a b" conv evs] z show ?thesis by blast
qed

text \<open>
  Claim C7. The comment on \<open>iters_since_start\<close> says it is capped at
  \<open>startup_ignore_iters\<close>, but the loop increments it while it is at most that value: after
  16 iterations from start-up the counter is 16, one above the threshold of 15 (where it
  then stays, see \<open>run_timeouts\<close> and \<open>run_started_bound\<close>).
\<close>

theorem iters_since_start_overshoot:
  "map_option (\<lambda>sys. iters_since_start (drv sys))
     (run (sim_camera SUCCESS SUCCESS) sim_conv (replicate 16 (ProcessIter 0 0 0))
        started_system) = Some 16 \<and>
   startup_ignore_iters = 15"
proof -
  have p: "\<not> newData (drv started_system)" "running (drv started_system)"
    "\<not> shutdown_requested (drv started_system)"
    by (simp_all add: started_system_def started_driver_def)
  have z: "iters_since_start (drv started_system) = 0"
    by (simp add: started_system_def started_driver_def)
  from run_timeouts [OF p, of "sim_camera SUCCESS SUCCESS" sim_conv 16 0 0 0]
  show ?thesis by (auto simp: z startup_ignore_iters_def)
qed
section \<open>Properties of callbackConfig\<close>

lemma setUseCase_config: "config (snd (setUseCase cam uc s)) = config s"
  by (simp add: setUseCase_def Let_def split: prod.splits)

lemma setExposureMode_config: "config (snd (setExposureMode cam a s)) = config s"
  by (simp add: setExposureMode_def Let_def split: prod.splits)

lemma callbackConfig_use_case_exposure_time:
  "callbackConfig_use_case cam cfg level s = Inr s1 \<Longrightarrow>
   exposure_time (config s1) = exposure_time (config s)"
  using setUseCase_config [of cam "use_case cfg" s]
  by (auto simp: callbackConfig_use_case_def split: if_splits prod.splits)

lemma callbackConfig_exposure_mode_exposure_time:
  "callbackConfig_exposure_mode cam cfg level s = Inr s1 \<Longrightarrow>
   exposure_time (config s1) = exposure_time (config s)"
  using setExposureMode_config [of cam "exposure_mode cfg = 0" s]
  by (auto simp: callbackConfig_exposure_mode_def split: if_splits prod.splits)

lemma callbackConfig_exposure_time_reject:
  assumes "level AND 0x04 \<noteq> 0"
    and "dev_getExposureMode cam (cameraDevice s) = AUTOMATIC \<or>
         exposure_time cfg < fst (dev_getExposureLimits cam (cameraDevice s)) \<or>
         snd (dev_getExposureLimits cam (cameraDevice s)) < exposure_time cfg"
  shows "callbackConfig_exposure_time cam cfg level s =
           Inl (cfg\<lparr>exposure_time := exposure_time (config s)\<rparr>, s)"
  using assms
  by (auto simp: callbackConfig_exposure_time_def setExposure_def Let_def)

text \<open>
  Claim C6, as the code has it. Take a call of \<open>callbackConfig\<close> whose level is not
  \<open>0xFFFFFFFF\<close> and has bit \<open>0x04\<close> set, and in which the use-case and exposure-mode steps
  do not return early. If at that point the device is in automatic exposure mode, or the
  proposed time, read as \<open>uint32_t\<close>, lies outside the limits the device reports then,
  the callback returns at once: the store's \<open>exposure_time\<close> is still the one from before
  the call, no exposure time is sent to the device, and the caller's \<open>exposure_time\<close> is
  overwritten with the store's.
\<close>

theorem callbackConfig_exposure_time_rejected:
  assumes "level \<noteq> 0xFFFFFFFF" and "level AND 0x04 \<noteq> 0"
    and "callbackConfig_use_case cam cfg level s = Inr s1"
    and "callbackConfig_exposure_mode cam cfg level s1 = Inr s2"
    and "dev_getExposureMode cam (cameraDevice s2) = AUTOMATIC \<or>
         exposure_time cfg < fst (dev_getExposureLimits cam (cameraDevice s2)) \<or>
         snd (dev_getExposureLimits cam (cameraDevice s2)) < exposure_time cfg"
  shows "callbackConfig cam conv cfg level s =
           (cfg\<lparr>exposure_time := exposure_time (config s)\<rparr>, s2) \<and>
         exposure_time (config s2) = exposure_time (config s)"
proof -
  have e: "exposure_time (config s2) = exposure_time (config s)"
    using callbackConfig_use_case_exposure_time [OF assms(3)]
      callbackConfig_exposure_mode_exposure_time [OF assms(4)] by simp
  have "callbackConfig cam conv cfg level s =
          (cfg\<lparr>exposure_time := exposure_time (config s2)\<rparr>, s2)"
    using assms(1,3,4) callbackConfig_exposure_time_reject [OF assms(2,5)]
    by (simp add: callbackConfig_def)
  then show ?thesis using e by simp
qed


lemma sim_camera_config_fields:
  "dev_getExposureMode (sim_camera a b) = sim_mode"
  "dev_getExposureLimits (sim_camera a b) d = sim_limits (sim_use_case d)"
  "dev_setExposureMode (sim_camera a b) m d = (SUCCESS, d\<lparr>sim_mode := m\<rparr>)"
  "dev_setExposureTime (sim_camera a b) e d = (SUCCESS, d\<lparr>sim_exposure := e\<rparr>)"
  "dev_setUseCase (sim_camera a b) uc d =
     (if uc = ''MODE_45FPS_500'' \<or> uc = ''MODE_9_5FPS_2000''
      then (SUCCESS, d\<lparr>sim_use_case := uc\<rparr>) else (FAILED 1, d))"
  "dev_getCurrentUseCase (sim_camera a b) = sim_use_case"
  by (simp_all add: sim_camera_def)

lemma started_driver_config_fields:
  "config (started_driver uc et) = started_config uc et"
  "exposure_time (configMin (started_driver uc et)) = fst (sim_limits uc)"
  "exposure_time (configMax (started_driver uc et)) = snd (sim_limits uc)"
  "cameraDevice (started_driver uc et) =
     \<lparr>sim_capturing = False, sim_mode = MANUAL, sim_use_case = uc, sim_exposure = et\<rparr>"
  "calls (started_driver uc et) = []"
  by (simp_all add: started_driver_def)

lemma started_config_fields:
  "use_case (started_config uc et) = uc"
  "exposure_mode (started_config uc et) = 1"
  "exposure_time (started_config uc et) = et"
  "(started_config uc et)\<lparr>exposure_time := et'\<rparr> = started_config uc et'"
  by (simp_all add: started_config_def)

theorem callbackConfig_exposure_time_rejected_witness:
  "callbackConfig (sim_camera SUCCESS SUCCESS) sim_conv
     (started_config ''MODE_9_5FPS_2000'' 5000) 4 (started_driver ''MODE_9_5FPS_2000'' 1000) =
   (started_config ''MODE_9_5FPS_2000'' 1000, started_driver ''MODE_9_5FPS_2000'' 1000) \<and>
   fst (callbackConfig (sim_camera SUCCESS SUCCESS) sim_conv
     ((started_config ''MODE_9_5FPS_2000'' 1500)\<lparr>exposure_mode := 0\<rparr>) 6
     (started_driver ''MODE_9_5FPS_2000'' 1000)) =
   (started_config ''MODE_9_5FPS_2000'' 1000)\<lparr>exposure_mode := 0\<rparr>"
proof -
  let ?cam = "sim_camera SUCCESS SUCCESS"
  let ?s = "started_driver ''MODE_9_5FPS_2000'' 1000"
  let ?cfg = "started_config ''MODE_9_5FPS_2000'' 5000"
  have a1: "callbackConfig_use_case ?cam ?cfg 4 ?s = Inr ?s"
    by (simp add: callbackConfig_use_case_def)
  have a2: "callbackConfig_exposure_mode ?cam ?cfg 4 ?s = Inr ?s"
    by (simp add: callbackConfig_exposure_mode_def)
  have a3: "dev_getExposureMode ?cam (cameraDevice ?s) = AUTOMATIC \<or>
         exposure_time ?cfg < fst (dev_getExposureLimits ?cam (cameraDevice ?s)) \<or>
         snd (dev_getExposureLimits ?cam (cameraDevice ?s)) < exposure_time ?cfg"
    by (simp add: sim_camera_config_fields started_driver_config_fields started_config_fields
        sim_limits_def)
  have a: "callbackConfig ?cam sim_conv ?cfg 4 ?s =
             (started_config ''MODE_9_5FPS_2000'' 1000, ?s)"
    using callbackConfig_exposure_time_rejected [OF _ _ a1 a2 a3, of sim_conv]
    by (simp add: started_driver_config_fields started_config_fields)
  let ?cfg' = "(started_config ''MODE_9_5FPS_2000'' 1500)\<lparr>exposure_mode := 0\<rparr>"
  let ?s2 = "?s\<lparr>cameraDevice := (cameraDevice ?s)\<lparr>sim_mode := AUTOMATIC\<rparr>,
                calls := [SetExposureMode AUTOMATIC],
                config := (config ?s)\<lparr>exposure_mode := 0\<rparr>\<rparr>"
  have b1: "callbackConfig_use_case ?cam ?cfg' 6 ?s = Inr ?s"
    by (simp add: callbackConfig_use_case_def)
  have b2: "callbackConfig_exposure_mode ?cam ?cfg' 6 ?s = Inr ?s2"
    by (simp add: callbackConfig_exposure_mode_def setExposureMode_def Let_def
        sim_camera_config_fields started_driver_config_fields started_config_fields)
  have b3: "dev_getExposureMode ?cam (cameraDevice ?s2) = AUTOMATIC \<or>
         exposure_time ?cfg' < fst (dev_getExposureLimits ?cam (cameraDevice ?s2)) \<or>
         snd (dev_getExposureLimits ?cam (cameraDevice ?s2)) < exposure_time ?cfg'"
    by (simp add: sim_camera_config_fields)
  have b: "fst (callbackConfig ?cam sim_conv ?cfg' 6 ?s) =
             (started_config ''MODE_9_5FPS_2000'' 1000)\<lparr>exposure_mode := 0\<rparr>"
    using callbackConfig_exposure_time_rejected [OF _ _ b1 b2 b3, of sim_conv]
    by (simp add: started_driver_config_fields started_config_def)
  show ?thesis using a b by simp
qed


text \<open>
  Claim C6 as stated fails in three ways. A request that changes use case and exposure
  time together (level 5) and names an unknown use case returns at the use-case step: the
  proposed 5000, outside the cached limits 50 to 2000, is not overwritten with the store's
  1000. A request that widens the use case and proposes 1000 with it is checked against
  the limits the device reports after the change, 50 to 2000, not the cached 50 to 500,
  and is committed to the store, which held 300. And the call with level \<open>0xFFFFFFFF\<close>
  returns before anything is looked at.
\<close>

theorem callbackConfig_exposure_time_counterexample:
  "(exposure_time (configMax (started_driver ''MODE_9_5FPS_2000'' 1000))
      < exposure_time (started_config ''BOGUS'' 5000) \<and>
    (5 :: 32 word) AND 0x04 \<noteq> 0 \<and>
    exposure_time (config (started_driver ''MODE_9_5FPS_2000'' 1000)) = 1000 \<and>
    exposure_time (fst (callbackConfig (sim_camera SUCCESS SUCCESS) sim_conv
       (started_config ''BOGUS'' 5000) 5 (started_driver ''MODE_9_5FPS_2000'' 1000))) = 5000) \<and>
   (exposure_time (configMax (started_driver ''MODE_45FPS_500'' 300))
      < exposure_time (started_config ''MODE_9_5FPS_2000'' 1000) \<and>
    exposure_time (config (started_driver ''MODE_45FPS_500'' 300)) = 300 \<and>
    exposure_time (config (snd (callbackConfig (sim_camera SUCCESS SUCCESS) sim_conv
       (started_config ''MODE_9_5FPS_2000'' 1000) 5 (started_driver ''MODE_45FPS_500'' 300))))
      = 1000) \<and>
   (exposure_time (configMax (started_driver ''MODE_9_5FPS_2000'' 1000))
      < exposure_time (started_config ''MODE_9_5FPS_2000'' 5000) \<and>
    (0xFFFFFFFF :: 32 word) AND 0x04 \<noteq> 0 \<and>
    exposure_time (fst (callbackConfig (sim_camera SUCCESS SUCCESS) sim_conv
       (started_config ''MODE_9_5FPS_2000'' 5000) 0xFFFFFFFF
       (started_driver ''MODE_9_5FPS_2000'' 1000))) = 5000)"
proof -
  let ?cam = "sim_camera SUCCESS SUCCESS"
  let ?s = "started_driver ''MODE_9_5FPS_2000'' 1000"
  have u1: "callbackConfig_use_case ?cam (started_config ''BOGUS'' 5000) 5 ?s =
      Inl (started_config ''MODE_9_5FPS_2000'' 5000, ?s\<lparr>calls := [SetUseCase ''BOGUS'']\<rparr>)"
    by (simp add: callbackConfig_use_case_def setUseCase_def Let_def
        sim_camera_config_fields started_driver_config_fields started_config_def)
  have b: "exposure_time (fst (callbackConfig ?cam sim_conv
       (started_config ''BOGUS'' 5000) 5 ?s)) = 5000"
    by (simp add: callbackConfig_def u1 started_config_fields)
  let ?t = "started_driver ''MODE_45FPS_500'' 300"
  let ?cfg = "started_config ''MODE_9_5FPS_2000'' 1000"
  let ?t1 = "?t\<lparr>cameraDevice := (cameraDevice ?t)\<lparr>sim_use_case := ''MODE_9_5FPS_2000''\<rparr>,
               calls := [SetUseCase ''MODE_9_5FPS_2000''],
               config := (config ?t)\<lparr>use_case := ''MODE_9_5FPS_2000''\<rparr>\<rparr>"
  let ?t3 = "?t1\<lparr>cameraDevice := (cameraDevice ?t1)\<lparr>sim_exposure := 1000\<rparr>,
               calls := [SetUseCase ''MODE_9_5FPS_2000'', SetExposureTime 1000],
               config := (config ?t1)\<lparr>exposure_time := 1000\<rparr>\<rparr>"
  have c1: "callbackConfig_use_case ?cam ?cfg 5 ?t = Inr ?t1"
    by (simp add: callbackConfig_use_case_def setUseCase_def Let_def
        sim_camera_config_fields started_driver_config_fields started_config_fields)
  have c2: "callbackConfig_exposure_mode ?cam ?cfg 5 ?t1 = Inr ?t1"
    by (simp add: callbackConfig_exposure_mode_def)
  have c3: "callbackConfig_exposure_time ?cam ?cfg 5 ?t1 = Inr ?t3"
    by (simp add: callbackConfig_exposure_time_def setExposure_def Let_def
        sim_camera_config_fields started_driver_config_fields started_config_fields
        sim_limits_def)
  have c: "exposure_time (config (snd (callbackConfig ?cam sim_conv ?cfg 5 ?t))) = 1000"
    by (simp add: callbackConfig_def c1 c2 c3 callbackConfig_limits_def
        callbackConfig_range_factor_def callbackConfig_max_noise_def Let_def)
  have a: "exposure_time (fst (callbackConfig ?cam sim_conv
       (started_config ''MODE_9_5FPS_2000'' 5000) 0xFFFFFFFF ?s)) = 5000"
    by (simp add: callbackConfig_def started_config_fields)
  show ?thesis
    using a b c
    by (simp add: started_driver_config_fields started_config_fields sim_limits_def)
qed

end
